theory Spec2Isabelle
  imports Main
begin

section \<open>Firefly III API client: the request execution engine\<close>

text \<open>
  A shallow embedding of \<^verbatim>\<open>src/client/firefly-client.ts\<close> (class
  \<^verbatim>\<open>FireflyApiClient\<close>) and of the loop of \<^verbatim>\<open>importCategories\<close> in
  \<^verbatim>\<open>src/tools/category-importer.ts\<close>.

  The asynchronous methods are run on one logical task. Time is a logical clock in
  milliseconds: it advances only where the source suspends (a \<^verbatim>\<open>setTimeout\<close>
  wait, the network exchange of \<^verbatim>\<open>fetch\<close>); a timer takes exactly the time it
  is set to, within the range of the platform's timers, and computation takes no time. JavaScript numbers are taken as exact integers (the
  counter and the delays stay far below \<open>2^53\<close> in any run that can happen).
\<close>

subsection \<open>JSON values and the two JavaScript operations the client applies to them\<close>

datatype json =
    JNull
  | JBool bool
  | JNum int
  | JStr string
  | JArr "json list"
  | JObj "(string \<times> json) list"

text \<open>JavaScript truthiness of a decoded JSON value (the left operand of \<^verbatim>\<open>||\<close>).\<close>

fun truthy :: "json \<Rightarrow> bool" where
  "truthy JNull = False"
| "truthy (JBool b) = b"
| "truthy (JNum n) = (n \<noteq> 0)"
| "truthy (JStr s) = (s \<noteq> [])"
| "truthy (JArr xs) = True"
| "truthy (JObj kvs) = True"

subsection \<open>Errors\<close>

text \<open>
  Everything the engine can throw. \<open>FireflyApiError message status response\<close> is the class
  of the source; \<open>message\<close> is the argument handed to the constructor. The others are
  plain errors without a status: \<open>FetchFailed\<close> is the \<^verbatim>\<open>TypeError\<close> of a
  \<^verbatim>\<open>fetch\<close> that got no response (connection refused, DNS), \<open>TimeoutError\<close> the
  abort reason of \<^verbatim>\<open>AbortSignal.timeout\<close>, \<open>SyntaxError\<close> the rejection of
  \<^verbatim>\<open>response.json()\<close>, \<open>NullDereference\<close> the \<^verbatim>\<open>TypeError\<close> of reading a
  property of \<^verbatim>\<open>null\<close>, \<open>InvalidURL\<close> the \<^verbatim>\<open>TypeError\<close> of
  \<^verbatim>\<open>new URL\<close>, and \<open>Exhausted\<close> is
  \<^verbatim>\<open>new Error('Request failed after all retry attempts')\<close>.
\<close>

datatype error =
    FireflyApiError json nat json
  | FetchFailed
  | TimeoutError
  | SyntaxError
  | NullDereference
  | InvalidURL
  | Exhausted

text \<open>\<^verbatim>\<open>error instanceof FireflyApiError\<close>\<close>

fun is_api_error :: "error \<Rightarrow> bool" where
  "is_api_error (FireflyApiError m st r) = True"
| "is_api_error e = False"

text \<open>
  \<^verbatim>\<open>error instanceof FireflyApiError && error.status >= 400 && error.status < 500\<close>
\<close>

fun is_client_error :: "error \<Rightarrow> bool" where
  "is_client_error (FireflyApiError m st r) = (400 \<le> st \<and> st < 500)"
| "is_client_error e = False"

text \<open>
  \<^verbatim>\<open>errorData.message\<close>: reading the property throws on \<^verbatim>\<open>null\<close>, gives
  \<^verbatim>\<open>undefined\<close> (\<open>None\<close>) on a value without that property, and the last
  entry of that name on an object (as \<^verbatim>\<open>JSON.parse\<close> keeps it).
\<close>

fun get_message :: "json \<Rightarrow> error + json option" where
  "get_message JNull = Inl NullDereference"
| "get_message (JObj kvs) = Inr (map_of (rev kvs) ''message'')"
| "get_message j = Inr None"

subsection \<open>Responses and the network\<close>

text \<open>
  A \<^verbatim>\<open>Response\<close>: \<open>body\<close> is what \<^verbatim>\<open>response.json()\<close> gives, \<open>None\<close> when
  it rejects (the body is absent or is not JSON text).
\<close>

record response =
  status :: nat
  statusText :: string
  body :: "json option"

text \<open>\<^verbatim>\<open>response.ok\<close>\<close>

definition ok :: "response \<Rightarrow> bool" where
  "ok r = (200 \<le> status r \<and> status r \<le> 299)"

text \<open>
  What the network does with one dispatched request, left alone: it never answers, it fails
  after some milliseconds without a response, or it answers after some milliseconds.
\<close>

datatype net = Hang | Fails nat | Responds nat response

subsection \<open>Settings, session state and observable events\<close>

text \<open>
  \<^verbatim>\<open>AppConfig\<close>, as far as the client reads it. \<open>baseUrlValid\<close> stands for
  \<^verbatim>\<open>firefly.baseUrl\<close>: whether \<^verbatim>\<open>new URL(endpoint, baseUrl)\<close> succeeds;
  \<open>debug\<close> for \<^verbatim>\<open>logging.level === 'debug'\<close>. The two durations are numbers
  of milliseconds; \<open>retryAttempts\<close> may be any integer, and the loop does not run at
  all when it is negative.
\<close>

record config =
  baseUrlValid :: bool
  timeout :: nat
  retryAttempts :: int
  retryDelay :: nat
  debug :: bool

datatype event =
    GateWait int
  | DebugRequest
  | Dispatch int
  | Resolved int nat
  | Rejected int error
  | DebugResponse nat
  | Caught error
  | ConsoleWarn nat int nat
  | BackoffWait nat
  | ConsoleError error

text \<open>
  The two private fields of the client, \<open>lastRequestTime\<close> and \<open>requestCount\<close>, with
  the clock (\<^verbatim>\<open>Date.now()\<close>) and the events observed so far, oldest first.
\<close>

record world =
  clock :: int
  lastRequestTime :: int
  requestCount :: nat
  trace :: "event list"

definition emit :: "event \<Rightarrow> world \<Rightarrow> world" where
  "emit e w = w\<lparr>trace := trace w @ [e]\<rparr>"

text \<open>The state of a freshly constructed client at time \<open>t\<close>.\<close>

definition new_client :: "int \<Rightarrow> world" where
  "new_client t = \<lparr>clock = t, lastRequestTime = 0, requestCount = 0, trace = []\<rparr>"

subsection \<open>The platform: timers, and \<^verbatim>\<open>fetch\<close> under a timeout signal\<close>

text \<open>
  The platform's timers (\<^verbatim>\<open>setTimeout\<close>, and with it \<^verbatim>\<open>AbortSignal.timeout\<close>)
  take a delay of at most \<open>2^31 - 1\<close> milliseconds; a timer set to more fires at once.
  \<open>timer_ms d\<close> is the time a timer set to \<open>d\<close> milliseconds takes.
\<close>

definition max_timer :: nat where
  "max_timer = 2147483647"

definition timer_ms :: "nat \<Rightarrow> nat" where
  "timer_ms d = (if d \<le> max_timer then d else 0)"

text \<open>
  \<^verbatim>\<open>fetch(url, config)\<close>, where \<^verbatim>\<open>config.signal\<close> aborts at the absolute time
  \<open>deadline\<close>. A signal that has already aborted rejects the call at once; otherwise the
  exchange runs until the network settles it or the deadline passes, whichever is first.
\<close>

definition fetch :: "int \<Rightarrow> net \<Rightarrow> world \<Rightarrow> (error + response) \<times> world" where
  "fetch deadline n w =
    (let t = clock w; w1 = emit (Dispatch t) w in
     if deadline \<le> t then (Inl TimeoutError, emit (Rejected t TimeoutError) w1)
     else case n of
       Hang \<Rightarrow> (Inl TimeoutError, emit (Rejected deadline TimeoutError) (w1\<lparr>clock := deadline\<rparr>))
     | Fails l \<Rightarrow>
         if t + int l < deadline
         then (Inl FetchFailed, emit (Rejected (t + int l) FetchFailed) (w1\<lparr>clock := t + int l\<rparr>))
         else (Inl TimeoutError, emit (Rejected deadline TimeoutError) (w1\<lparr>clock := deadline\<rparr>))
     | Responds l r \<Rightarrow>
         if t + int l < deadline
         then (Inr r, emit (Resolved (t + int l) (status r)) (w1\<lparr>clock := t + int l\<rparr>))
         else (Inl TimeoutError, emit (Rejected deadline TimeoutError) (w1\<lparr>clock := deadline\<rparr>)))"

subsection \<open>The client\<close>

text \<open>Decimal rendering of a number inside a template literal.\<close>

fun string_of_nat :: "nat \<Rightarrow> string" where
  "string_of_nat n =
    (if n < 10 then [''0123456789'' ! n]
     else string_of_nat (n div 10) @ [''0123456789'' ! (n mod 10)])"

declare string_of_nat.simps [simp del]

text \<open>The template \<^verbatim>\<open>`HTTP ${response.status}: ${response.statusText}`\<close>\<close>

definition http_message :: "response \<Rightarrow> string" where
  "http_message r = ''HTTP '' @ string_of_nat (status r) @ '': '' @ statusText r"

text \<open>\<^verbatim>\<open>parseErrorResponse\<close>\<close>

definition parseErrorResponse :: "response \<Rightarrow> json" where
  "parseErrorResponse r =
    (case body r of
       Some j \<Rightarrow> j
     | None \<Rightarrow> JObj [(''message'', JStr (http_message r))])"

text \<open>
  The \<^verbatim>\<open>throw new FireflyApiError(errorData.message || `HTTP ...`, response.status,
  errorData)\<close> of \<^verbatim>\<open>executeWithRetry\<close>: the error that leaves the statement.
\<close>

definition api_error_of :: "response \<Rightarrow> error" where
  "api_error_of r =
    (let errorData = parseErrorResponse r in
     case get_message errorData of
       Inl e \<Rightarrow> e
     | Inr m \<Rightarrow>
         FireflyApiError
           (case m of
              Some v \<Rightarrow> if truthy v then v else JStr (http_message r)
            | None \<Rightarrow> JStr (http_message r))
           (status r) errorData)"

text \<open>
  \<^verbatim>\<open>handleRateLimit\<close>. Its timer is set to at most 100 ms, unless the clock was set
  back since the last request; the wait is taken to last as long as the timer is set to.
\<close>

definition sleep_gate :: "int \<Rightarrow> world \<Rightarrow> world" where
  "sleep_gate d w = emit (GateWait d) (w\<lparr>clock := clock w + d\<rparr>)"

definition handleRateLimit :: "world \<Rightarrow> world" where
  "handleRateLimit w =
    (let now = clock w;
         timeSinceLastRequest = now - lastRequestTime w;
         minInterval = 100;
         w1 = (if timeSinceLastRequest < minInterval
               then sleep_gate (minInterval - timeSinceLastRequest) w else w)
     in w1\<lparr>lastRequestTime := clock w1\<rparr>)"

text \<open>\<^verbatim>\<open>logRequest\<close> and \<^verbatim>\<open>logResponse\<close>\<close>

definition logRequest :: "config \<Rightarrow> world \<Rightarrow> world" where
  "logRequest cfg w = (if debug cfg then emit DebugRequest w else w)"

definition logResponse :: "config \<Rightarrow> nat \<Rightarrow> world \<Rightarrow> world" where
  "logResponse cfg st w = (if debug cfg then emit (DebugResponse st) w else w)"

text \<open>
  The \<^verbatim>\<open>try\<close> block of one iteration of \<^verbatim>\<open>executeWithRetry\<close>: \<open>Inr\<close>
  is the returned data, \<open>Inl\<close> the error thrown into the \<^verbatim>\<open>catch\<close>.
\<close>

definition try_attempt :: "config \<Rightarrow> int \<Rightarrow> net \<Rightarrow> world \<Rightarrow> (error + json) \<times> world" where
  "try_attempt cfg deadline n w =
    (case fetch deadline n (logRequest cfg w) of
       (Inl e, w1) \<Rightarrow> (Inl e, w1)
     | (Inr r, w1) \<Rightarrow>
         (let w2 = w1\<lparr>requestCount := requestCount w1 + 1\<rparr> in
          if \<not> ok r then (Inl (api_error_of r), w2)
          else case body r of
                 None \<Rightarrow> (Inl SyntaxError, w2)
               | Some data \<Rightarrow> (Inr data, logResponse cfg (status r) w2)))"

text \<open>
  The wait at the end of the \<^verbatim>\<open>catch\<close> block, taken when retries remain:
  \<^verbatim>\<open>console.warn\<close>, then a timer set to \<open>delay\<close> milliseconds.
\<close>

definition backoff :: "config \<Rightarrow> nat \<Rightarrow> world \<Rightarrow> world" where
  "backoff cfg attempt w =
    (if int attempt < retryAttempts cfg then
       (let delay = retryDelay cfg * 2 ^ attempt;
            w1 = emit (ConsoleWarn (attempt + 1) (retryAttempts cfg + 1) delay) w
        in emit (BackoffWait delay) (w1\<lparr>clock := clock w1 + int (timer_ms delay)\<rparr>))
     else w)"

text \<open>
  \<^verbatim>\<open>executeWithRetry\<close>: the \<^verbatim>\<open>for\<close> loop from \<open>attempt\<close> on, with the
  variable \<open>lastError\<close>, and the \<^verbatim>\<open>throw\<close> after it. \<open>net attempt\<close> is what the
  network does with the request of that iteration. Every value thrown in the
  \<^verbatim>\<open>try\<close> block is an \<^verbatim>\<open>Error\<close>, so \<open>lastError\<close> is the caught error itself.
  \<open>Caught\<close> marks the entry into the \<^verbatim>\<open>catch\<close> block.
\<close>

function executeWithRetry_from ::
  "config \<Rightarrow> int \<Rightarrow> (nat \<Rightarrow> net) \<Rightarrow> nat \<Rightarrow> error option \<Rightarrow> world \<Rightarrow> (error + json) \<times> world" where
  "executeWithRetry_from cfg deadline net attempt lastError w =
    (if int attempt \<le> retryAttempts cfg then
       (case try_attempt cfg deadline (net attempt) w of
          (Inr data, w1) \<Rightarrow> (Inr data, w1)
        | (Inl e, w1) \<Rightarrow>
            (let w2 = emit (Caught e) w1 in
             if is_client_error e then (Inl e, w2)
             else executeWithRetry_from cfg deadline net (Suc attempt) (Some e)
                    (backoff cfg attempt w2)))
     else (Inl (case lastError of Some e \<Rightarrow> e | None \<Rightarrow> Exhausted), w))"
  by pat_completeness auto
termination
  by (relation "measure (\<lambda>(cfg, deadline, net, attempt, lastError, w).
        nat (retryAttempts cfg + 1 - int attempt))") auto

declare executeWithRetry_from.simps [simp del]

definition executeWithRetry ::
  "config \<Rightarrow> int \<Rightarrow> (nat \<Rightarrow> net) \<Rightarrow> world \<Rightarrow> (error + json) \<times> world" where
  "executeWithRetry cfg deadline net w = executeWithRetry_from cfg deadline net 0 None w"

text \<open>
  \<^verbatim>\<open>request\<close>: the gate, the URL, the request configuration with its one
  \<^verbatim>\<open>AbortSignal.timeout(timeout)\<close> (created here, so its deadline is the time of
  creation plus the time its timer takes), then the retry loop. Method, body and query parameters only
  shape the URL and the request, which \<open>net\<close> stands for.
\<close>

definition request :: "config \<Rightarrow> (nat \<Rightarrow> net) \<Rightarrow> world \<Rightarrow> (error + json) \<times> world" where
  "request cfg net w =
    (let w1 = handleRateLimit w in
     if \<not> baseUrlValid cfg then (Inl InvalidURL, w1)
     else executeWithRetry cfg (clock w1 + int (timer_ms (timeout cfg))) net w1)"

text \<open>
  \<^verbatim>\<open>testConnection\<close>. Like every asynchronous method it settles with a value
  (\<open>Inr\<close>) or an error (\<open>Inl\<close>).
\<close>

definition testConnection :: "config \<Rightarrow> (nat \<Rightarrow> net) \<Rightarrow> world \<Rightarrow> (error + bool) \<times> world" where
  "testConnection cfg net w =
    (case request cfg net w of
       (Inr d, w1) \<Rightarrow> (Inr True, w1)
     | (Inl e, w1) \<Rightarrow> (Inr False, emit (ConsoleError e) w1))"

text \<open>\<^verbatim>\<open>getStats\<close>\<close>

definition getStats :: "world \<Rightarrow> (nat \<times> int) \<times> world" where
  "getStats w = ((requestCount w, lastRequestTime w), w)"

subsection \<open>A session: operations issued one after the other\<close>

text \<open>
  \<open>Execute\<close> stands for any accessor (\<^verbatim>\<open>getUser\<close>, \<^verbatim>\<open>getAccounts\<close>, ...):
  each is one call of \<^verbatim>\<open>request\<close>. The number paired with an operation is the time
  the caller lets pass before issuing it.
\<close>

datatype op = Execute "nat \<Rightarrow> net" | Probe "nat \<Rightarrow> net" | Stats

definition idle :: "nat \<Rightarrow> world \<Rightarrow> world" where
  "idle d w = w\<lparr>clock := clock w + int d\<rparr>"

fun apply_op :: "config \<Rightarrow> op \<Rightarrow> world \<Rightarrow> world" where
  "apply_op cfg (Execute net) w = snd (request cfg net w)"
| "apply_op cfg (Probe net) w = snd (testConnection cfg net w)"
| "apply_op cfg Stats w = snd (getStats w)"

fun run :: "config \<Rightarrow> (nat \<times> op) list \<Rightarrow> world \<Rightarrow> world" where
  "run cfg [] w = w"
| "run cfg ((d, x) # ops) w = run cfg ops (apply_op cfg x (idle d w))"

subsection \<open>Reading a trace\<close>

fun is_dispatch :: "event \<Rightarrow> bool" where
  "is_dispatch (Dispatch t) = True"
| "is_dispatch e = False"

fun is_resolved :: "event \<Rightarrow> bool" where
  "is_resolved (Resolved t st) = True"
| "is_resolved e = False"

fun is_rejected :: "event \<Rightarrow> bool" where
  "is_rejected (Rejected t e) = True"
| "is_rejected e = False"

text \<open>How often \<^verbatim>\<open>fetch\<close> was called, and how often it gave a response or none.\<close>

definition dispatches :: "event list \<Rightarrow> nat" where
  "dispatches tr = length (filter is_dispatch tr)"

definition responses :: "event list \<Rightarrow> nat" where
  "responses tr = length (filter is_resolved tr)"

definition rejections :: "event list \<Rightarrow> nat" where
  "rejections tr = length (filter is_rejected tr)"

text \<open>The times at which \<^verbatim>\<open>fetch\<close> was called.\<close>

definition dispatch_times :: "event list \<Rightarrow> int list" where
  "dispatch_times tr = concat (map (\<lambda>e. case e of Dispatch t \<Rightarrow> [t] | _ \<Rightarrow> []) tr)"

text \<open>The times at which \<^verbatim>\<open>fetch\<close> settled, with a response or without.\<close>

definition settle_times :: "event list \<Rightarrow> int list" where
  "settle_times tr =
     concat (map (\<lambda>e. case e of Resolved t st \<Rightarrow> [t] | Rejected t x \<Rightarrow> [t] | _ \<Rightarrow> []) tr)"

text \<open>
  For dispatch times \<open>ds\<close> and settle times \<open>ss\<close> of the same attempts: the time from
  the end of each attempt to the dispatch of the next.
\<close>

definition gaps :: "int list \<Rightarrow> int list \<Rightarrow> int list" where
  "gaps ds ss = map2 (\<lambda>d s. d - s) (tl ds) ss"

text \<open>The delays of the waits between attempts, of the waits at the gate, and the errors caught.\<close>

definition backoffs :: "event list \<Rightarrow> nat list" where
  "backoffs tr = concat (map (\<lambda>e. case e of BackoffWait d \<Rightarrow> [d] | _ \<Rightarrow> []) tr)"

definition gate_waits :: "event list \<Rightarrow> int list" where
  "gate_waits tr = concat (map (\<lambda>e. case e of GateWait d \<Rightarrow> [d] | _ \<Rightarrow> []) tr)"

definition caught :: "event list \<Rightarrow> error list" where
  "caught tr = concat (map (\<lambda>e. case e of Caught x \<Rightarrow> [x] | _ \<Rightarrow> []) tr)"

text \<open>The errors written by \<^verbatim>\<open>console.error\<close>.\<close>

definition console_errors :: "event list \<Rightarrow> error list" where
  "console_errors tr = concat (map (\<lambda>e. case e of ConsoleError x \<Rightarrow> [x] | _ \<Rightarrow> []) tr)"


text \<open>The delay before attempt \<open>i + 1\<close>: \<^verbatim>\<open>retryDelay * Math.pow(2, i)\<close>.\<close>

definition backoff_delay :: "config \<Rightarrow> nat \<Rightarrow> nat" where
  "backoff_delay cfg i = retryDelay cfg * 2 ^ i"

text \<open>
  The time from the dispatch of attempt \<open>a\<close> to the answer to attempt \<open>k\<close>, when
  attempt \<open>i\<close> is answered after \<open>lat i\<close> milliseconds and is followed by a wait of
  \<open>backoff_delay cfg i\<close> milliseconds.
\<close>

definition time_through :: "config \<Rightarrow> (nat \<Rightarrow> nat) \<Rightarrow> nat \<Rightarrow> nat \<Rightarrow> nat" where
  "time_through cfg lat a k =
     sum_list (map lat [a..<Suc k]) + sum_list (map (backoff_delay cfg) [a..<k])"

text \<open>A success status with a body that is not JSON text.\<close>

definition garbled :: "response \<Rightarrow> bool" where
  "garbled r = (ok r \<and> body r = None)"

text \<open>The attempts and the waits between them, in the order in which they happened.\<close>

datatype step = Attempt | Wait nat

definition timeline :: "event list \<Rightarrow> step list" where
  "timeline tr =
     concat (map (\<lambda>e. case e of Dispatch t \<Rightarrow> [Attempt] | BackoffWait d \<Rightarrow> [Wait d] | _ \<Rightarrow> []) tr)"

subsection \<open>The bulk importer\<close>

text \<open>\<^verbatim>\<open>CategoryLocalData\<close>\<close>

record category =
  name :: string
  notes' :: "string option"

text \<open>The calls of the logger made by \<^verbatim>\<open>importCategories\<close>.\<close>

datatype log_line =
    InfoStarting nat
  | InfoCreating string
  | DebugCreated string
  | ErrorFailed string error
  | InfoSummary nat nat nat
  | WarnSomeFailed
  | InfoAllImported

text \<open>The local variables \<^verbatim>\<open>created\<close> and \<^verbatim>\<open>errors\<close>, and the log.\<close>

record import_state =
  created :: nat
  errors :: nat
  log :: "log_line list"

text \<open>
  The \<^verbatim>\<open>for\<close> loop of \<^verbatim>\<open>importCategories\<close>. \<open>createCategory\<close> is the method
  of the client that the loop calls; the loop is modelled for any such method.
\<close>

fun import_loop ::
  "(category \<Rightarrow> world \<Rightarrow> (error + json) \<times> world) \<Rightarrow> category list \<Rightarrow>
   import_state \<Rightarrow> world \<Rightarrow> import_state \<times> world" where
  "import_loop createCategory [] st w = (st, w)"
| "import_loop createCategory (c # cs) st w =
    (let st1 = st\<lparr>log := log st @ [InfoCreating (name c)]\<rparr> in
     case createCategory c w of
       (Inr d, w1) \<Rightarrow>
         import_loop createCategory cs
           (st1\<lparr>created := created st1 + 1, log := log st1 @ [DebugCreated (name c)]\<rparr>)
           (idle 100 w1)
     | (Inl e, w1) \<Rightarrow>
         import_loop createCategory cs
           (st1\<lparr>errors := errors st1 + 1, log := log st1 @ [ErrorFailed (name c) e]\<rparr>)
           w1)"

text \<open>\<^verbatim>\<open>importCategories\<close>, returning what it counted and logged.\<close>

definition importCategories ::
  "(category \<Rightarrow> world \<Rightarrow> (error + json) \<times> world) \<Rightarrow> category list \<Rightarrow>
   world \<Rightarrow> import_state \<times> world" where
  "importCategories createCategory categories w =
    (case import_loop createCategory categories
            \<lparr>created = 0, errors = 0, log = [InfoStarting (length categories)]\<rparr> w of
       (st, w1) \<Rightarrow>
         (st\<lparr>log := log st @
                [InfoSummary (created st) (errors st) (length categories),
                 if errors st > 0 then WarnSomeFailed else InfoAllImported]\<rparr>,
          w1))"

text \<open>
  What the calls of \<open>createCategory\<close> return when it is called once on every item, in
  the order of the list, each call on the state the call before it left, 100 ms later when
  that call succeeded; with the state after the last call.
\<close>

fun createCategory_calls ::
  "(category \<Rightarrow> world \<Rightarrow> (error + json) \<times> world) \<Rightarrow> category list \<Rightarrow>
   world \<Rightarrow> (error + json) list \<times> world" where
  "createCategory_calls createCategory [] w = ([], w)"
| "createCategory_calls createCategory (c # cs) w =
    (case createCategory c w of
       (Inr d, w1) \<Rightarrow>
         (case createCategory_calls createCategory cs (idle 100 w1) of
            (rs, w2) \<Rightarrow> (Inr d # rs, w2))
     | (Inl e, w1) \<Rightarrow>
         (case createCategory_calls createCategory cs w1 of
            (rs, w2) \<Rightarrow> (Inl e # rs, w2)))"

text \<open>The lines logged for an item whose creation returned \<open>r\<close>.\<close>

definition item_lines :: "category \<Rightarrow> error + json \<Rightarrow> log_line list" where
  "item_lines c r =
     InfoCreating (name c) #
     (case r of Inl e \<Rightarrow> [ErrorFailed (name c) e] | Inr d \<Rightarrow> [DebugCreated (name c)])"

text \<open>The names in the lines of each kind.\<close>

definition creating_lines :: "log_line list \<Rightarrow> string list" where
  "creating_lines ls = concat (map (\<lambda>l. case l of InfoCreating n \<Rightarrow> [n] | _ \<Rightarrow> []) ls)"

definition created_lines :: "log_line list \<Rightarrow> string list" where
  "created_lines ls = concat (map (\<lambda>l. case l of DebugCreated n \<Rightarrow> [n] | _ \<Rightarrow> []) ls)"

definition failed_lines :: "log_line list \<Rightarrow> string list" where
  "failed_lines ls = concat (map (\<lambda>l. case l of ErrorFailed n e \<Rightarrow> [n] | _ \<Rightarrow> []) ls)"

subsection \<open>Settings and responses used in the examples\<close>

definition example_config :: config where
  "example_config =
     \<lparr>baseUrlValid = True, timeout = 1000, retryAttempts = 1, retryDelay = 500, debug = False\<rparr>"

definition ok_response :: response where
  "ok_response = \<lparr>status = 200, statusText = ''OK'', body = Some (JObj [(''data'', JArr [])])\<rparr>"

definition unavailable :: response where
  "unavailable = \<lparr>status = 503, statusText = ''Service Unavailable'', body = None\<rparr>"

definition forbidden :: response where
  "forbidden =
     \<lparr>status = 403, statusText = ''Forbidden'',
      body = Some (JObj [(''message'', JStr ''Forbidden'')])\<rparr>"

definition not_found_null :: response where
  "not_found_null = \<lparr>status = 404, statusText = ''Not Found'', body = Some JNull\<rparr>"

definition unavailable_null :: response where
  "unavailable_null = \<lparr>status = 503, statusText = ''Service Unavailable'', body = Some JNull\<rparr>"

definition garbled_ok :: response where
  "garbled_ok = \<lparr>status = 200, statusText = ''OK'', body = None\<rparr>"

text \<open>A server that is unavailable once and then answers.\<close>

definition flaky :: "nat \<Rightarrow> net" where
  "flaky i = (if i = 0 then Responds 10 unavailable else Responds 10 ok_response)"

text \<open>A server that does not answer the first request and answers every later one at once.\<close>

definition slow_start :: "nat \<Rightarrow> net" where
  "slow_start i = (if i = 0 then Hang else Responds 10 ok_response)"

text \<open>A server whose first answer is garbled and whose later answers are good.\<close>

definition garbled_once :: "nat \<Rightarrow> net" where
  "garbled_once i = (if i = 0 then Responds 10 garbled_ok else Responds 10 ok_response)"

text \<open>A client that last passed the gate at time 1000, 30 milliseconds ago.\<close>

definition warm_client :: world where
  "warm_client = \<lparr>clock = 1030, lastRequestTime = 1000, requestCount = 7, trace = []\<rparr>"

text \<open>
  An example of a \<open>createCategory\<close>: one request against a server that already holds a
  category named Groceries and rejects a second one.
\<close>

definition created_response :: response where
  "created_response =
     \<lparr>status = 201, statusText = ''Created'', body = Some (JObj [(''data'', JObj [])])\<rparr>"

definition duplicate_response :: response where
  "duplicate_response =
     \<lparr>status = 422, statusText = ''Unprocessable Entity'',
      body = Some (JObj [(''message'', JStr ''The name has already been taken.'')])\<rparr>"

definition example_createCategory :: "category \<Rightarrow> world \<Rightarrow> (error + json) \<times> world" where
  "example_createCategory c w =
     request example_config
       (\<lambda>i. Responds 10 (if name c = ''Groceries'' then duplicate_response else created_response))
       w"

definition example_categories :: "category list" where
  "example_categories =
     [\<lparr>name = ''Food'', notes' = None\<rparr>,
      \<lparr>name = ''Groceries'', notes' = Some ''weekly''\<rparr>,
      \<lparr>name = ''Rent'', notes' = None\<rparr>]"

section \<open>Basic facts about the model\<close>

subsection \<open>Events and the effect of one attempt\<close>

lemma emit_simps [simp]:
  "trace (emit e w) = trace w @ [e]"
  "clock (emit e w) = clock w"
  "lastRequestTime (emit e w) = lastRequestTime w"
  "requestCount (emit e w) = requestCount w"
  by (simp_all add: emit_def)

lemma obs_append [simp]:
  "dispatches (xs @ ys) = dispatches xs + dispatches ys"
  "responses (xs @ ys) = responses xs + responses ys"
  "rejections (xs @ ys) = rejections xs + rejections ys"
  "dispatch_times (xs @ ys) = dispatch_times xs @ dispatch_times ys"
  "backoffs (xs @ ys) = backoffs xs @ backoffs ys"
  "gate_waits (xs @ ys) = gate_waits xs @ gate_waits ys"
  "caught (xs @ ys) = caught xs @ caught ys"
  "console_errors (xs @ ys) = console_errors xs @ console_errors ys"
  by (simp_all add: dispatches_def responses_def rejections_def dispatch_times_def
      backoffs_def gate_waits_def caught_def console_errors_def)

lemma obs_Nil [simp]:
  "dispatches [] = 0" "responses [] = 0" "rejections [] = 0" "dispatch_times [] = []"
  "backoffs [] = []" "gate_waits [] = []" "caught [] = []" "console_errors [] = []"
  by (simp_all add: dispatches_def responses_def rejections_def dispatch_times_def
      backoffs_def gate_waits_def caught_def console_errors_def)

lemma obs_Cons [simp]:
  "dispatches (e # es) = (if is_dispatch e then 1 else 0) + dispatches es"
  "responses (e # es) = (if is_resolved e then 1 else 0) + responses es"
  "rejections (e # es) = (if is_rejected e then 1 else 0) + rejections es"
  "dispatch_times (e # es) = (case e of Dispatch t \<Rightarrow> [t] | _ \<Rightarrow> []) @ dispatch_times es"
  "backoffs (e # es) = (case e of BackoffWait d \<Rightarrow> [d] | _ \<Rightarrow> []) @ backoffs es"
  "gate_waits (e # es) = (case e of GateWait d \<Rightarrow> [d] | _ \<Rightarrow> []) @ gate_waits es"
  "caught (e # es) = (case e of Caught x \<Rightarrow> [x] | _ \<Rightarrow> []) @ caught es"
  "console_errors (e # es) = (case e of ConsoleError x \<Rightarrow> [x] | _ \<Rightarrow> []) @ console_errors es"
  by (simp_all add: dispatches_def responses_def rejections_def dispatch_times_def
      backoffs_def gate_waits_def caught_def console_errors_def)

lemma fetch_fields [simp]:
  "lastRequestTime (snd (fetch D n w)) = lastRequestTime w"
  "requestCount (snd (fetch D n w)) = requestCount w"
  by (auto simp: fetch_def Let_def split: net.splits)

lemma fetch_trace:
  "\<exists>x. trace (snd (fetch D n w)) = trace w @ [Dispatch (clock w), x] \<and>
       (case fst (fetch D n w) of
          Inl e \<Rightarrow> x = Rejected (clock (snd (fetch D n w))) e
        | Inr r \<Rightarrow> x = Resolved (clock (snd (fetch D n w))) (status r))"
  by (auto simp: fetch_def Let_def split: net.splits)

lemma fetch_obs [simp]:
  "dispatches (trace (snd (fetch D n w))) = Suc (dispatches (trace w))"
  "responses (trace (snd (fetch D n w))) = responses (trace w) + (if isl (fst (fetch D n w)) then 0 else 1)"
  "rejections (trace (snd (fetch D n w))) = rejections (trace w) + (if isl (fst (fetch D n w)) then 1 else 0)"
  "backoffs (trace (snd (fetch D n w))) = backoffs (trace w)"
  "gate_waits (trace (snd (fetch D n w))) = gate_waits (trace w)"
  "caught (trace (snd (fetch D n w))) = caught (trace w)"
  "console_errors (trace (snd (fetch D n w))) = console_errors (trace w)"
  by (auto simp: fetch_def Let_def split: net.splits)

lemma logRequest_simps [simp]:
  "clock (logRequest cfg w) = clock w"
  "lastRequestTime (logRequest cfg w) = lastRequestTime w"
  "requestCount (logRequest cfg w) = requestCount w"
  "dispatches (trace (logRequest cfg w)) = dispatches (trace w)"
  "responses (trace (logRequest cfg w)) = responses (trace w)"
  "rejections (trace (logRequest cfg w)) = rejections (trace w)"
  "backoffs (trace (logRequest cfg w)) = backoffs (trace w)"
  "gate_waits (trace (logRequest cfg w)) = gate_waits (trace w)"
  "caught (trace (logRequest cfg w)) = caught (trace w)"
  "console_errors (trace (logRequest cfg w)) = console_errors (trace w)"
  by (simp_all add: logRequest_def)

lemma logResponse_simps [simp]:
  "clock (logResponse cfg st w) = clock w"
  "lastRequestTime (logResponse cfg st w) = lastRequestTime w"
  "requestCount (logResponse cfg st w) = requestCount w"
  "dispatches (trace (logResponse cfg st w)) = dispatches (trace w)"
  "responses (trace (logResponse cfg st w)) = responses (trace w)"
  "rejections (trace (logResponse cfg st w)) = rejections (trace w)"
  "backoffs (trace (logResponse cfg st w)) = backoffs (trace w)"
  "gate_waits (trace (logResponse cfg st w)) = gate_waits (trace w)"
  "caught (trace (logResponse cfg st w)) = caught (trace w)"
  "console_errors (trace (logResponse cfg st w)) = console_errors (trace w)"
  by (simp_all add: logResponse_def)

lemma fetch_result_facts:
  assumes f: "fetch D n w0 = (r, w1)"
  shows "lastRequestTime w1 = lastRequestTime w0"
    and "requestCount w1 = requestCount w0"
    and "dispatches (trace w1) = Suc (dispatches (trace w0))"
    and "responses (trace w1) = responses (trace w0) + (if isl r then 0 else 1)"
    and "rejections (trace w1) = rejections (trace w0) + (if isl r then 1 else 0)"
    and "backoffs (trace w1) = backoffs (trace w0)"
    and "gate_waits (trace w1) = gate_waits (trace w0)"
    and "caught (trace w1) = caught (trace w0)"
    and "console_errors (trace w1) = console_errors (trace w0)"
  using fetch_fields[of D n w0] fetch_obs[of D n w0] by (simp_all add: f)

lemma try_attempt_fields [simp]:
  "lastRequestTime (snd (try_attempt cfg D n w)) = lastRequestTime w"
  "dispatches (trace (snd (try_attempt cfg D n w))) = Suc (dispatches (trace w))"
  "backoffs (trace (snd (try_attempt cfg D n w))) = backoffs (trace w)"
  "gate_waits (trace (snd (try_attempt cfg D n w))) = gate_waits (trace w)"
  "caught (trace (snd (try_attempt cfg D n w))) = caught (trace w)"
  "console_errors (trace (snd (try_attempt cfg D n w))) = console_errors (trace w)"
proof -
  obtain r w1 where f: "fetch D n (logRequest cfg w) = (r, w1)"
    by (cases "fetch D n (logRequest cfg w)")
  note F = fetch_result_facts[OF f]
  show "lastRequestTime (snd (try_attempt cfg D n w)) = lastRequestTime w"
    by (cases r) (simp_all add: try_attempt_def f Let_def F split: option.splits)
  show "dispatches (trace (snd (try_attempt cfg D n w))) = Suc (dispatches (trace w))"
    by (cases r) (simp_all add: try_attempt_def f Let_def F split: option.splits)
  show "backoffs (trace (snd (try_attempt cfg D n w))) = backoffs (trace w)"
    by (cases r) (simp_all add: try_attempt_def f Let_def F split: option.splits)
  show "gate_waits (trace (snd (try_attempt cfg D n w))) = gate_waits (trace w)"
    by (cases r) (simp_all add: try_attempt_def f Let_def F split: option.splits)
  show "caught (trace (snd (try_attempt cfg D n w))) = caught (trace w)"
    by (cases r) (simp_all add: try_attempt_def f Let_def F split: option.splits)
  show "console_errors (trace (snd (try_attempt cfg D n w))) = console_errors (trace w)"
    by (cases r) (simp_all add: try_attempt_def f Let_def F split: option.splits)
qed

text \<open>The counter moves exactly when the attempt obtained a response.\<close>

lemma try_attempt_count:
  "requestCount (snd (try_attempt cfg D n w)) + responses (trace w) =
     requestCount w + responses (trace (snd (try_attempt cfg D n w)))"
proof -
  obtain r w1 where f: "fetch D n (logRequest cfg w) = (r, w1)"
    by (cases "fetch D n (logRequest cfg w)")
  note F = fetch_result_facts[OF f]
  show ?thesis
    by (cases r) (simp_all add: try_attempt_def f Let_def F split: option.splits)
qed

lemma try_attempt_split:
  "responses (trace (snd (try_attempt cfg D n w))) + rejections (trace (snd (try_attempt cfg D n w)))
     = Suc (responses (trace w) + rejections (trace w))"
proof -
  obtain r w1 where f: "fetch D n (logRequest cfg w) = (r, w1)"
    by (cases "fetch D n (logRequest cfg w)")
  note F = fetch_result_facts[OF f]
  show ?thesis
    by (cases r) (simp_all add: try_attempt_def f Let_def F split: option.splits)
qed

lemma backoff_fields [simp]:
  "lastRequestTime (backoff cfg a w) = lastRequestTime w"
  "requestCount (backoff cfg a w) = requestCount w"
  "dispatches (trace (backoff cfg a w)) = dispatches (trace w)"
  "responses (trace (backoff cfg a w)) = responses (trace w)"
  "rejections (trace (backoff cfg a w)) = rejections (trace w)"
  "gate_waits (trace (backoff cfg a w)) = gate_waits (trace w)"
  "caught (trace (backoff cfg a w)) = caught (trace w)"
  "console_errors (trace (backoff cfg a w)) = console_errors (trace w)"
  "backoffs (trace (backoff cfg a w)) =
     backoffs (trace w) @ (if int a < retryAttempts cfg then [backoff_delay cfg a] else [])"
  "clock (backoff cfg a w) =
     clock w + (if int a < retryAttempts cfg then int (timer_ms (backoff_delay cfg a)) else 0)"
  by (simp_all add: backoff_def backoff_delay_def Let_def)

subsection \<open>Unfolding the retry loop\<close>

lemma try_attempt_facts:
  assumes t: "try_attempt cfg D n w = (r, w1)"
  shows "lastRequestTime w1 = lastRequestTime w"
    and "dispatches (trace w1) = Suc (dispatches (trace w))"
    and "backoffs (trace w1) = backoffs (trace w)"
    and "gate_waits (trace w1) = gate_waits (trace w)"
    and "caught (trace w1) = caught (trace w)"
    and "console_errors (trace w1) = console_errors (trace w)"
    and "requestCount w1 + responses (trace w) = requestCount w + responses (trace w1)"
    and "responses (trace w1) + rejections (trace w1) = Suc (responses (trace w) + rejections (trace w))"
  using try_attempt_fields[of cfg D n w] try_attempt_count[of cfg D n w]
    try_attempt_split[of cfg D n w]
  by (simp_all add: t)

text \<open>One unfolding of the loop, by the outcome of the iteration.\<close>

lemma loop_done:
  "\<not> int a \<le> retryAttempts cfg \<Longrightarrow>
   executeWithRetry_from cfg D net a le w =
     (Inl (case le of Some e \<Rightarrow> e | None \<Rightarrow> Exhausted), w)"
  by (simp add: executeWithRetry_from.simps)

lemma loop_success:
  "int a \<le> retryAttempts cfg \<Longrightarrow> try_attempt cfg D (net a) w = (Inr d, w1) \<Longrightarrow>
   executeWithRetry_from cfg D net a le w = (Inr d, w1)"
  by (simp add: executeWithRetry_from.simps)

lemma loop_client_error:
  "int a \<le> retryAttempts cfg \<Longrightarrow> try_attempt cfg D (net a) w = (Inl e, w1) \<Longrightarrow>
   is_client_error e \<Longrightarrow>
   executeWithRetry_from cfg D net a le w = (Inl e, emit (Caught e) w1)"
  by (simp add: executeWithRetry_from.simps)

lemma loop_retry:
  "int a \<le> retryAttempts cfg \<Longrightarrow> try_attempt cfg D (net a) w = (Inl e, w1) \<Longrightarrow>
   \<not> is_client_error e \<Longrightarrow>
   executeWithRetry_from cfg D net a le w =
     executeWithRetry_from cfg D net (Suc a) (Some e) (backoff cfg a (emit (Caught e) w1))"
  by (simp add: executeWithRetry_from.simps)

text \<open>An induction rule that follows these four cases.\<close>

lemma loop_induct [case_names finished success client_error retry]:
  assumes "\<And>a le w. \<not> int a \<le> retryAttempts cfg \<Longrightarrow> P a le w"
    and "\<And>a le w d w1. int a \<le> retryAttempts cfg \<Longrightarrow>
           try_attempt cfg D (net a) w = (Inr d, w1) \<Longrightarrow> P a le w"
    and "\<And>a le w e w1. int a \<le> retryAttempts cfg \<Longrightarrow>
           try_attempt cfg D (net a) w = (Inl e, w1) \<Longrightarrow> is_client_error e \<Longrightarrow> P a le w"
    and "\<And>a le w e w1. int a \<le> retryAttempts cfg \<Longrightarrow>
           try_attempt cfg D (net a) w = (Inl e, w1) \<Longrightarrow> \<not> is_client_error e \<Longrightarrow>
           P (Suc a) (Some e) (backoff cfg a (emit (Caught e) w1)) \<Longrightarrow> P a le w"
  shows "P a le w"
proof (induction k \<equiv> "nat (retryAttempts cfg + 1 - int a)" arbitrary: a le w)
  case (0 a le w)
  then have "\<not> int a \<le> retryAttempts cfg" by simp
  then show ?case by (rule assms(1))
next
  case (Suc k a le w)
  then have le: "int a \<le> retryAttempts cfg" by simp
  obtain r w1 where t: "try_attempt cfg D (net a) w = (r, w1)"
    by (cases "try_attempt cfg D (net a) w")
  show ?case
  proof (cases r)
    case (Inr d)
    with le t show ?thesis by (auto intro: assms(2))
  next
    case (Inl e)
    show ?thesis
    proof (cases "is_client_error e")
      case True
      with le t Inl show ?thesis by (auto intro: assms(3))
    next
      case False
      have "k = nat (retryAttempts cfg + 1 - int (Suc a))"
        using Suc.hyps(2) by simp
      then have "P (Suc a) (Some e) (backoff cfg a (emit (Caught e) w1))"
        by (rule Suc.hyps(1))
      with le t Inl False show ?thesis by (auto intro: assms(4))
    qed
  qed
qed

subsection \<open>What the loop leaves alone and what it counts\<close>

lemma loop_unchanged:
  "lastRequestTime (snd (executeWithRetry_from cfg D net a le w)) = lastRequestTime w \<and>
   gate_waits (trace (snd (executeWithRetry_from cfg D net a le w))) = gate_waits (trace w) \<and>
   console_errors (trace (snd (executeWithRetry_from cfg D net a le w))) = console_errors (trace w)"
proof (induction a le w rule: loop_induct[where cfg=cfg and D=D and net=net])
  case (finished a le w)
  then show ?case by (simp add: loop_done)
next
  case (success a le w d w1)
  then show ?case using try_attempt_facts[OF success(2)] by (simp add: loop_success)
next
  case (client_error a le w e w1)
  then show ?case using try_attempt_facts[OF client_error(2)] by (simp add: loop_client_error)
next
  case (retry a le w e w1)
  then show ?case using try_attempt_facts[OF retry(2)] by (simp add: loop_retry)
qed

lemma loop_count:
  "requestCount (snd (executeWithRetry_from cfg D net a le w)) + responses (trace w) =
     requestCount w + responses (trace (snd (executeWithRetry_from cfg D net a le w)))"
proof (induction a le w rule: loop_induct[where cfg=cfg and D=D and net=net])
  case (finished a le w)
  then show ?case by (simp add: loop_done)
next
  case (success a le w d w1)
  then show ?case using try_attempt_facts[OF success(2)] by (simp add: loop_success)
next
  case (client_error a le w e w1)
  then show ?case using try_attempt_facts[OF client_error(2)] by (simp add: loop_client_error)
next
  case (retry a le w e w1)
  from retry(2) have "requestCount w1 + responses (trace w) = requestCount w + responses (trace w1)"
    by (rule try_attempt_facts)
  with retry(4) show ?case using retry(1-3) by (simp add: loop_retry)
qed

lemma loop_settled:
  "dispatches (trace (snd (executeWithRetry_from cfg D net a le w))) +
     (responses (trace w) + rejections (trace w)) =
   dispatches (trace w) +
     (responses (trace (snd (executeWithRetry_from cfg D net a le w))) +
      rejections (trace (snd (executeWithRetry_from cfg D net a le w))))"
proof (induction a le w rule: loop_induct[where cfg=cfg and D=D and net=net])
  case (finished a le w)
  then show ?case by (simp add: loop_done)
next
  case (success a le w d w1)
  then show ?case using try_attempt_facts[OF success(2)] by (simp add: loop_success)
next
  case (client_error a le w e w1)
  then show ?case using try_attempt_facts[OF client_error(2)] by (simp add: loop_client_error)
next
  case (retry a le w e w1)
  note F = try_attempt_facts[OF retry(2)]
  from retry(4) show ?case using retry(1-3) F(2,8) by (simp add: loop_retry)
qed

lemma try_attempt_mono: "requestCount w \<le> requestCount (snd (try_attempt cfg D n w))"
proof -
  obtain r w1 where f: "fetch D n (logRequest cfg w) = (r, w1)"
    by (cases "fetch D n (logRequest cfg w)")
  note F = fetch_result_facts[OF f]
  show ?thesis
    by (cases r) (simp_all add: try_attempt_def f Let_def F split: option.splits)
qed

lemma loop_mono:
  "requestCount w \<le> requestCount (snd (executeWithRetry_from cfg D net a le w))"
proof (induction a le w rule: loop_induct[where cfg=cfg and D=D and net=net])
  case (finished a le w)
  then show ?case by (simp add: loop_done)
next
  case (success a le w d w1)
  then show ?case using try_attempt_mono[of w cfg D "net a"] by (simp add: loop_success)
next
  case (client_error a le w e w1)
  then show ?case using try_attempt_mono[of w cfg D "net a"] by (simp add: loop_client_error)
next
  case (retry a le w e w1)
  then show ?case using try_attempt_mono[of w cfg D "net a"] by (simp add: loop_retry)
qed

subsection \<open>Runs in which every attempt is retried\<close>

lemma get_message_Inl: "get_message j = Inl e \<Longrightarrow> j = JNull \<and> e = NullDereference"
  by (cases j) auto

lemma api_error_of_cases:
  "api_error_of r = NullDereference \<or>
   (\<exists>m. api_error_of r = FireflyApiError m (status r) (parseErrorResponse r))"
  by (cases "get_message (parseErrorResponse r)")
     (auto simp: api_error_of_def Let_def dest: get_message_Inl)


lemma fetch_no_response:
  "n = Hang \<or> n = Fails l \<Longrightarrow> \<exists>e w1. fetch D n w = (Inl e, w1) \<and> \<not> is_api_error e"
  by (auto simp: fetch_def Let_def)



text \<open>
  The shape of a run in which every attempt fails with an error that is retried: one
  dispatch per iteration, a wait after each but the last, and the last error surfaced.
\<close>

lemma loop_all_retried:
  assumes R: "\<And>i w. \<exists>e w1. try_attempt cfg D (net i) w = (Inl e, w1) \<and> \<not> is_client_error e"
  shows "dispatches (trace (snd (executeWithRetry_from cfg D net a le w))) =
           dispatches (trace w) + nat (retryAttempts cfg + 1 - int a) \<and>
         backoffs (trace (snd (executeWithRetry_from cfg D net a le w))) =
           backoffs (trace w) @ map (backoff_delay cfg) [a..<nat (retryAttempts cfg)] \<and>
         (\<exists>es. caught (trace (snd (executeWithRetry_from cfg D net a le w))) = caught (trace w) @ es \<and>
               length es = nat (retryAttempts cfg + 1 - int a) \<and>
               (\<forall>e\<in>set es. \<not> is_client_error e) \<and>
               fst (executeWithRetry_from cfg D net a le w) =
                 Inl (if es = [] then (case le of Some e \<Rightarrow> e | None \<Rightarrow> Exhausted) else last es))"
proof (induction a le w rule: loop_induct[where cfg=cfg and D=D and net=net])
  case (finished a le w)
  then show ?case by (simp add: loop_done)
next
  case (success a le w d w1)
  with R[of a w] show ?case by simp
next
  case (client_error a le w e w1)
  with R[of a w] show ?case by simp
next
  case (retry a le w e w1)
  let ?w2 = "backoff cfg a (emit (Caught e) w1)"
  let ?res = "executeWithRetry_from cfg D net (Suc a) (Some e) ?w2"
  note F = try_attempt_facts[OF retry(2)]
  have eq: "executeWithRetry_from cfg D net a le w = ?res"
    using retry(1-3) by (rule loop_retry)
  from retry(4) obtain es where
    d: "dispatches (trace (snd ?res)) = dispatches (trace ?w2) + nat (retryAttempts cfg + 1 - int (Suc a))"
    and b: "backoffs (trace (snd ?res)) = backoffs (trace ?w2) @ map (backoff_delay cfg) [Suc a..<nat (retryAttempts cfg)]"
    and c: "caught (trace (snd ?res)) = caught (trace ?w2) @ es"
    and l: "length es = nat (retryAttempts cfg + 1 - int (Suc a))"
    and r: "\<forall>e\<in>set es. \<not> is_client_error e"
    and f: "fst ?res = Inl (if es = [] then (case Some e of Some e \<Rightarrow> e | None \<Rightarrow> Exhausted) else last es)"
    by blast
  have d': "dispatches (trace (snd ?res)) = dispatches (trace w) + nat (retryAttempts cfg + 1 - int a)"
    using d F(2) retry(1) by simp
  have up: "[a..<nat (retryAttempts cfg)] =
      (if int a < retryAttempts cfg then a # [Suc a..<nat (retryAttempts cfg)] else [])"
    using retry(1) by (simp add: upt_conv_Cons)
  have b': "backoffs (trace (snd ?res)) =
      backoffs (trace w) @ map (backoff_delay cfg) [a..<nat (retryAttempts cfg)]"
    unfolding b up using F(3) by simp
  have c': "caught (trace (snd ?res)) = caught (trace w) @ (e # es)"
    using c F(5) by simp
  have l': "length (e # es) = nat (retryAttempts cfg + 1 - int a)"
    using l retry(1) by simp
  have r': "\<forall>x\<in>set (e # es). \<not> is_client_error x"
    using r retry(3) by simp
  have f': "fst ?res = Inl (if e # es = [] then (case le of Some e \<Rightarrow> e | None \<Rightarrow> Exhausted) else last (e # es))"
    using f by simp
  show ?case
    unfolding eq using d' b' c' l' r' f' by blast
qed

subsection \<open>The gate and the times of dispatch\<close>

lemma timeline_simps [simp]:
  "timeline [] = []"
  "timeline (e # es) = (case e of Dispatch t \<Rightarrow> [Attempt] | BackoffWait d \<Rightarrow> [Wait d] | _ \<Rightarrow> []) @ timeline es"
  "timeline (xs @ ys) = timeline xs @ timeline ys"
  by (simp_all add: timeline_def)

lemma handleRateLimit_fields [simp]:
  "requestCount (handleRateLimit w) = requestCount w"
  "lastRequestTime (handleRateLimit w) = clock (handleRateLimit w)"
  "dispatches (trace (handleRateLimit w)) = dispatches (trace w)"
  "responses (trace (handleRateLimit w)) = responses (trace w)"
  "rejections (trace (handleRateLimit w)) = rejections (trace w)"
  "dispatch_times (trace (handleRateLimit w)) = dispatch_times (trace w)"
  "backoffs (trace (handleRateLimit w)) = backoffs (trace w)"
  "caught (trace (handleRateLimit w)) = caught (trace w)"
  "console_errors (trace (handleRateLimit w)) = console_errors (trace w)"
  "timeline (trace (handleRateLimit w)) = timeline (trace w)"
  "gate_waits (trace (handleRateLimit w)) =
     gate_waits (trace w) @
     (if clock w - lastRequestTime w < 100 then [100 - (clock w - lastRequestTime w)] else [])"
  by (simp_all add: handleRateLimit_def sleep_gate_def Let_def)

lemma handleRateLimit_clock:
  "clock (handleRateLimit w) =
     clock w + (if clock w - lastRequestTime w < 100 then 100 - (clock w - lastRequestTime w) else 0)"
  by (simp add: handleRateLimit_def sleep_gate_def Let_def)

lemma log_dispatch_times [simp]:
  "dispatch_times (trace (logRequest cfg w)) = dispatch_times (trace w)"
  "timeline (trace (logRequest cfg w)) = timeline (trace w)"
  "dispatch_times (trace (logResponse cfg st w)) = dispatch_times (trace w)"
  "timeline (trace (logResponse cfg st w)) = timeline (trace w)"
  by (simp_all add: logRequest_def logResponse_def)

lemma fetch_dispatch_time:
  "dispatch_times (trace (snd (fetch D n w))) = dispatch_times (trace w) @ [clock w]"
  "timeline (trace (snd (fetch D n w))) = timeline (trace w) @ [Attempt]"
  by (auto simp: fetch_def Let_def split: net.splits)

lemma try_attempt_dispatch_time [simp]:
  "dispatch_times (trace (snd (try_attempt cfg D n w))) = dispatch_times (trace w) @ [clock w]"
  "timeline (trace (snd (try_attempt cfg D n w))) = timeline (trace w) @ [Attempt]"
proof -
  obtain r w1 where f: "fetch D n (logRequest cfg w) = (r, w1)"
    by (cases "fetch D n (logRequest cfg w)")
  have F: "dispatch_times (trace w1) = dispatch_times (trace w) @ [clock w]"
    "timeline (trace w1) = timeline (trace w) @ [Attempt]"
    using fetch_dispatch_time[of D n "logRequest cfg w"] by (simp_all add: f)
  show "dispatch_times (trace (snd (try_attempt cfg D n w))) = dispatch_times (trace w) @ [clock w]"
    by (cases r) (simp_all add: try_attempt_def f Let_def F split: option.splits)
  show "timeline (trace (snd (try_attempt cfg D n w))) = timeline (trace w) @ [Attempt]"
    by (cases r) (simp_all add: try_attempt_def f Let_def F split: option.splits)
qed

lemma backoff_dispatch_times [simp]:
  "dispatch_times (trace (backoff cfg a w)) = dispatch_times (trace w)"
  "timeline (trace (backoff cfg a w)) =
     timeline (trace w) @ (if int a < retryAttempts cfg then [Wait (backoff_delay cfg a)] else [])"
  by (simp_all add: backoff_def backoff_delay_def Let_def)

text \<open>The dispatch times only grow at the end, and the first new one is the time of entry.\<close>

lemma loop_dispatch_times:
  "\<exists>ts. dispatch_times (trace (snd (executeWithRetry_from cfg D net a le w))) =
          dispatch_times (trace w) @ ts \<and>
        (int a \<le> retryAttempts cfg \<longrightarrow> ts \<noteq> [] \<and> hd ts = clock w)"
proof (induction a le w rule: loop_induct[where cfg=cfg and D=D and net=net])
  case (finished a le w)
  then show ?case by (simp add: loop_done)
next
  case (success a le w d w1)
  then show ?case using try_attempt_dispatch_time(1)[of cfg D "net a" w] by (simp add: loop_success)
next
  case (client_error a le w e w1)
  then show ?case using try_attempt_dispatch_time(1)[of cfg D "net a" w]
    by (simp add: loop_client_error)
next
  case (retry a le w e w1)
  let ?w2 = "backoff cfg a (emit (Caught e) w1)"
  from retry(4) obtain ts where
    "dispatch_times (trace (snd (executeWithRetry_from cfg D net (Suc a) (Some e) ?w2))) =
       dispatch_times (trace ?w2) @ ts" by blast
  moreover have "dispatch_times (trace ?w2) = dispatch_times (trace w) @ [clock w]"
    using try_attempt_dispatch_time(1)[of cfg D "net a" w] retry(2) by simp
  ultimately have "dispatch_times (trace (snd (executeWithRetry_from cfg D net (Suc a) (Some e) ?w2))) =
       dispatch_times (trace w) @ (clock w # ts)" by simp
  then show ?case using retry(1-3) by (simp add: loop_retry)
qed

subsection \<open>One call of request\<close>

lemma request_valid:
  "baseUrlValid cfg \<Longrightarrow>
   request cfg net w =
     executeWithRetry_from cfg (clock (handleRateLimit w) + int (timer_ms (timeout cfg))) net 0 None
       (handleRateLimit w)"
  by (simp add: request_def executeWithRetry_def Let_def)

lemma request_invalid:
  "\<not> baseUrlValid cfg \<Longrightarrow> request cfg net w = (Inl InvalidURL, handleRateLimit w)"
  by (simp add: request_def Let_def)

lemma request_count:
  "requestCount (snd (request cfg net w)) + responses (trace w) =
     requestCount w + responses (trace (snd (request cfg net w)))"
proof (cases "baseUrlValid cfg")
  case True
  show ?thesis
    using loop_count[of cfg "clock (handleRateLimit w) + int (timer_ms (timeout cfg))" net 0 None "handleRateLimit w"]
    by (simp add: request_valid[OF True])
next
  case False
  then show ?thesis by (simp add: request_invalid)
qed

lemma request_settled:
  "dispatches (trace (snd (request cfg net w))) + (responses (trace w) + rejections (trace w)) =
   dispatches (trace w) +
     (responses (trace (snd (request cfg net w))) + rejections (trace (snd (request cfg net w))))"
proof (cases "baseUrlValid cfg")
  case True
  show ?thesis
    using loop_settled[of cfg "clock (handleRateLimit w) + int (timer_ms (timeout cfg))" net 0 None "handleRateLimit w"]
    by (simp add: request_valid[OF True])
next
  case False
  then show ?thesis by (simp add: request_invalid)
qed

lemma request_mono: "requestCount w \<le> requestCount (snd (request cfg net w))"
proof (cases "baseUrlValid cfg")
  case True
  show ?thesis
    using loop_mono[of "handleRateLimit w" cfg "clock (handleRateLimit w) + int (timer_ms (timeout cfg))" net 0 None]
    by (simp add: request_valid[OF True])
next
  case False
  then show ?thesis by (simp add: request_invalid)
qed

lemma request_unchanged:
  "lastRequestTime (snd (request cfg net w)) = clock (handleRateLimit w)"
  "gate_waits (trace (snd (request cfg net w))) = gate_waits (trace (handleRateLimit w))"
  "console_errors (trace (snd (request cfg net w))) = console_errors (trace w)"
proof -
  let ?D = "clock (handleRateLimit w) + int (timer_ms (timeout cfg))"
  note L = loop_unchanged[of cfg ?D net 0 None "handleRateLimit w"]
  show "lastRequestTime (snd (request cfg net w)) = clock (handleRateLimit w)"
    using L by (cases "baseUrlValid cfg") (simp_all add: request_valid request_invalid)
  show "gate_waits (trace (snd (request cfg net w))) = gate_waits (trace (handleRateLimit w))"
    using L by (cases "baseUrlValid cfg") (simp_all add: request_valid request_invalid)
  show "console_errors (trace (snd (request cfg net w))) = console_errors (trace w)"
    using L by (cases "baseUrlValid cfg") (simp_all add: request_valid request_invalid)
qed

lemma request_first_dispatch:
  assumes "baseUrlValid cfg" and "0 \<le> retryAttempts cfg"
  shows "\<exists>ts. dispatch_times (trace (snd (request cfg net w))) =
               dispatch_times (trace w) @ clock (handleRateLimit w) # ts"
proof -
  let ?D = "clock (handleRateLimit w) + int (timer_ms (timeout cfg))"
  from loop_dispatch_times[of cfg ?D net 0 None "handleRateLimit w"] assms(2)
  obtain ts where t: "dispatch_times (trace (snd (executeWithRetry_from cfg ?D net 0 None (handleRateLimit w)))) =
      dispatch_times (trace w) @ ts" and n: "ts \<noteq> []" and h: "hd ts = clock (handleRateLimit w)"
    by auto
  from n h have "ts = clock (handleRateLimit w) # tl ts" by (cases ts) auto
  with t show ?thesis unfolding request_valid[OF assms(1)] by metis
qed

lemma testConnection_mono: "requestCount w \<le> requestCount (snd (testConnection cfg net w))"
proof -
  obtain r w1 where q: "request cfg net w = (r, w1)" by (cases "request cfg net w")
  from request_mono[of w cfg net] q have "requestCount w \<le> requestCount w1" by simp
  then show ?thesis by (cases r) (simp_all add: testConnection_def q)
qed

lemma testConnection_lastRequestTime:
  "lastRequestTime (snd (testConnection cfg net w)) = clock (handleRateLimit w)"
proof -
  obtain r w1 where q: "request cfg net w = (r, w1)" by (cases "request cfg net w")
  from request_unchanged(1)[of cfg net w] q have "lastRequestTime w1 = clock (handleRateLimit w)" by simp
  then show ?thesis by (cases r) (simp_all add: testConnection_def q)
qed

lemma apply_op_mono: "requestCount w \<le> requestCount (apply_op cfg x w)"
  by (cases x) (simp_all add: request_mono testConnection_mono getStats_def)

lemma idle_fields [simp]:
  "requestCount (idle d w) = requestCount w"
  "lastRequestTime (idle d w) = lastRequestTime w"
  "trace (idle d w) = trace w"
  "clock (idle d w) = clock w + int d"
  by (simp_all add: idle_def)

lemma run_mono: "requestCount w \<le> requestCount (run cfg ops w)"
proof (induction ops arbitrary: w)
  case Nil
  show ?case by simp
next
  case (Cons p ops)
  obtain d x where p: "p = (d, x)" by (cases p)
  have "requestCount w \<le> requestCount (apply_op cfg x (idle d w))"
    using apply_op_mono[of "idle d w" cfg x] by simp
  also have "\<dots> \<le> requestCount (run cfg ops (apply_op cfg x (idle d w)))"
    by (rule Cons.IH)
  finally show ?case by (simp add: p)
qed

subsection \<open>The order of attempts and waits\<close>

lemma loop_timeline:
  assumes R: "\<And>i w. \<exists>e w1. try_attempt cfg D (net i) w = (Inl e, w1) \<and> \<not> is_client_error e"
  shows "timeline (trace (snd (executeWithRetry_from cfg D net a le w))) =
           timeline (trace w) @
           (if int a \<le> retryAttempts cfg
            then concat (map (\<lambda>i. [Attempt, Wait (backoff_delay cfg i)]) [a..<nat (retryAttempts cfg)])
                 @ [Attempt]
            else [])"
proof (induction a le w rule: loop_induct[where cfg=cfg and D=D and net=net])
  case (finished a le w)
  then show ?case by (simp add: loop_done)
next
  case (success a le w d w1)
  with R[of a w] show ?case by simp
next
  case (client_error a le w e w1)
  with R[of a w] show ?case by simp
next
  case (retry a le w e w1)
  let ?w2 = "backoff cfg a (emit (Caught e) w1)"
  have unf: "executeWithRetry_from cfg D net a le w =
      executeWithRetry_from cfg D net (Suc a) (Some e) ?w2"
    using retry(1-3) by (rule loop_retry)
  have t1: "timeline (trace w1) = timeline (trace w) @ [Attempt]"
    using try_attempt_dispatch_time(2)[of cfg D "net a" w] retry(2) by simp
  show ?case
  proof (cases "int a < retryAttempts cfg")
    case True
    then have up: "[a..<nat (retryAttempts cfg)] = a # [Suc a..<nat (retryAttempts cfg)]"
      by (simp add: upt_conv_Cons)
    from True have le: "int (Suc a) \<le> retryAttempts cfg" by simp
    show ?thesis
      using retry(4) True le t1 by (simp add: unf up)
  next
    case False
    with retry(1) have eq: "int a = retryAttempts cfg" by simp
    then have nle: "\<not> int (Suc a) \<le> retryAttempts cfg" by simp
    from eq have up: "[a..<nat (retryAttempts cfg)] = []" by simp
    show ?thesis
      using retry(4) False nle t1 retry(1) by (simp add: unf up)
  qed
qed

subsection \<open>When attempts are dispatched and when they end\<close>

lemma settle_times_simps [simp]:
  "settle_times [] = []"
  "settle_times (e # es) =
     (case e of Resolved t st \<Rightarrow> [t] | Rejected t x \<Rightarrow> [t] | _ \<Rightarrow> []) @ settle_times es"
  "settle_times (xs @ ys) = settle_times xs @ settle_times ys"
  by (simp_all add: settle_times_def)

lemma gaps_simps [simp]:
  "gaps [] ss = []"
  "gaps [d] ss = []"
  "gaps (d # d' # ds) (s # ss) = (d' - s) # gaps (d' # ds) ss"
  by (simp_all add: gaps_def)

lemma log_settle_times [simp]:
  "settle_times (trace (logRequest cfg w)) = settle_times (trace w)"
  "settle_times (trace (logResponse cfg st w)) = settle_times (trace w)"
  "settle_times (trace (handleRateLimit w)) = settle_times (trace w)"
  "settle_times (trace (backoff cfg a w)) = settle_times (trace w)"
  by (simp_all add: logRequest_def logResponse_def handleRateLimit_def sleep_gate_def
      backoff_def Let_def)

lemma fetch_settle_time:
  "settle_times (trace (snd (fetch D n w))) = settle_times (trace w) @ [clock (snd (fetch D n w))]"
  by (auto simp: fetch_def Let_def split: net.splits)

lemma try_attempt_settle_time:
  "settle_times (trace (snd (try_attempt cfg D n w))) =
     settle_times (trace w) @ [clock (snd (try_attempt cfg D n w))]"
proof -
  obtain r w1 where f: "fetch D n (logRequest cfg w) = (r, w1)"
    by (cases "fetch D n (logRequest cfg w)")
  have F: "settle_times (trace w1) = settle_times (trace w) @ [clock w1]"
    using fetch_settle_time[of D n "logRequest cfg w"] by (simp add: f)
  show ?thesis
    by (cases r) (simp_all add: try_attempt_def f Let_def F split: option.splits)
qed

text \<open>
  Whatever the attempts end in: the loop dispatches at the time of entry, every later
  dispatch follows the end of the attempt before it by the time its timer takes, and the
  loop ends when its last attempt ends.
\<close>

lemma loop_schedule:
  "\<exists>ds ss.
     dispatch_times (trace (snd (executeWithRetry_from cfg D net a le w))) =
       dispatch_times (trace w) @ ds \<and>
     settle_times (trace (snd (executeWithRetry_from cfg D net a le w))) =
       settle_times (trace w) @ ss \<and>
     length ss = length ds \<and>
     length ds \<le> nat (retryAttempts cfg + 1 - int a) \<and>
     dispatches (trace (snd (executeWithRetry_from cfg D net a le w))) =
       dispatches (trace w) + length ds \<and>
     (ds \<noteq> [] \<longleftrightarrow> int a \<le> retryAttempts cfg) \<and>
     (ds \<noteq> [] \<longrightarrow> hd ds = clock w) \<and>
     gaps ds ss = map (\<lambda>i. int (timer_ms (backoff_delay cfg i))) [a..<a + (length ds - 1)] \<and>
     backoffs (trace (snd (executeWithRetry_from cfg D net a le w))) =
       backoffs (trace w) @ map (backoff_delay cfg) [a..<a + (length ds - 1)] \<and>
     clock (snd (executeWithRetry_from cfg D net a le w)) =
       (if ds = [] then clock w else last ss)"
  (is "\<exists>ds ss. ?P a le w ds ss")
proof (induction a le w rule: loop_induct[where cfg=cfg and D=D and net=net])
  case (finished a le w)
  then have "?P a le w [] []" by (simp add: loop_done)
  then show ?case by blast
next
  case (success a le w d w1)
  note F = try_attempt_facts[OF success(2)]
  have s: "settle_times (trace w1) = settle_times (trace w) @ [clock w1]"
    using try_attempt_settle_time[of cfg D "net a" w] success(2) by simp
  have t: "dispatch_times (trace w1) = dispatch_times (trace w) @ [clock w]"
    using try_attempt_dispatch_time(1)[of cfg D "net a" w] success(2) by simp
  have "?P a le w [clock w] [clock w1]"
    using success(1) s t F(2,3) by (simp add: loop_success[where net=net, OF success(1,2)])
  then show ?case by blast
next
  case (client_error a le w e w1)
  note F = try_attempt_facts[OF client_error(2)]
  have s: "settle_times (trace w1) = settle_times (trace w) @ [clock w1]"
    using try_attempt_settle_time[of cfg D "net a" w] client_error(2) by simp
  have t: "dispatch_times (trace w1) = dispatch_times (trace w) @ [clock w]"
    using try_attempt_dispatch_time(1)[of cfg D "net a" w] client_error(2) by simp
  have "?P a le w [clock w] [clock w1]"
    using client_error(1) s t F(2,3) by (simp add: loop_client_error[where net=net, OF client_error(1-3)])
  then show ?case by blast
next
  case (retry a le w e w1)
  let ?w2 = "backoff cfg a (emit (Caught e) w1)"
  have unf: "executeWithRetry_from cfg D net a le w =
      executeWithRetry_from cfg D net (Suc a) (Some e) ?w2"
    using retry(1-3) by (rule loop_retry)
  note F = try_attempt_facts[OF retry(2)]
  have s: "settle_times (trace w1) = settle_times (trace w) @ [clock w1]"
    using try_attempt_settle_time[of cfg D "net a" w] retry(2) by simp
  have t: "dispatch_times (trace w1) = dispatch_times (trace w) @ [clock w]"
    using try_attempt_dispatch_time(1)[of cfg D "net a" w] retry(2) by simp
  from retry(4) obtain ds ss where IH: "?P (Suc a) (Some e) ?w2 ds ss" by blast
  show ?case
  proof (cases ds)
    case Nil
    with IH have last: "\<not> int (Suc a) \<le> retryAttempts cfg" and ss: "ss = []" by auto
    with retry(1) have nw: "\<not> int a < retryAttempts cfg" by simp
    have "?P a le w [clock w] [clock w1]"
      unfolding unf using IH Nil ss nw retry(1) s t F(2,3) by simp
    then show ?thesis by blast
  next
    case (Cons d0 dt)
    with IH have more: "int (Suc a) \<le> retryAttempts cfg" by auto
    then have wt: "int a < retryAttempts cfg" by simp
    from IH Cons obtain s0 st where ss: "ss = s0 # st" by (cases ss) auto
    from IH Cons have d0: "d0 = clock ?w2" by simp
    have c2: "clock ?w2 = clock w1 + int (timer_ms (backoff_delay cfg a))"
      using wt by simp
    have up: "[a..<Suc (a + length dt)] = a # [Suc a..<Suc (a + length dt)]"
      by (rule upt_conv_Cons) simp
    from IH have "length ds \<le> nat (retryAttempts cfg + 1 - int (Suc a))" by blast
    then have lb: "Suc (length ds) \<le> nat (retryAttempts cfg + 1 - int a)"
      using wt by linarith
    have "?P a le w (clock w # ds) (clock w1 # ss)"
      unfolding unf using IH Cons ss wt retry(1) s t F(2,3) d0 c2 lb
      by (simp del: upt_Suc add: up)
    then show ?thesis by blast
  qed
qed

lemma timer_ms_in_range: "d \<le> max_timer \<Longrightarrow> timer_ms d = d"
  by (simp add: timer_ms_def)

text \<open>
  The schedule of one call, with delays the platform's timers take: the first dispatch is
  at the time the gate was passed, every later dispatch follows the end of the attempt
  before it by exactly \<open>retryDelay * 2 ^ i\<close> milliseconds, and the call ends when its last
  attempt ends.
\<close>

lemma request_schedule:
  assumes valid: "baseUrlValid cfg"
    and bound: "\<forall>i. int i < retryAttempts cfg \<longrightarrow> retryDelay cfg * 2 ^ i \<le> max_timer"
  shows "\<exists>ds ss.
     dispatch_times (trace (snd (request cfg net w))) = dispatch_times (trace w) @ ds \<and>
     settle_times (trace (snd (request cfg net w))) = settle_times (trace w) @ ss \<and>
     length ss = length ds \<and>
     dispatches (trace (snd (request cfg net w))) = dispatches (trace w) + length ds \<and>
     (ds \<noteq> [] \<longrightarrow> hd ds = clock (handleRateLimit w) \<and>
                 clock (snd (request cfg net w)) = last ss) \<and>
     gaps ds ss = map (\<lambda>i. int (retryDelay cfg * 2 ^ i)) [0..<length ds - 1] \<and>
     backoffs (trace (snd (request cfg net w))) =
       backoffs (trace w) @ map (\<lambda>i. retryDelay cfg * 2 ^ i) [0..<length ds - 1]"
proof -
  let ?w1 = "handleRateLimit w"
  let ?D = "clock ?w1 + int (timer_ms (timeout cfg))"
  let ?r = "executeWithRetry_from cfg ?D net 0 None ?w1"
  from loop_schedule[of cfg ?D net 0 None ?w1] obtain ds ss where
    d: "dispatch_times (trace (snd ?r)) = dispatch_times (trace ?w1) @ ds"
    and s: "settle_times (trace (snd ?r)) = settle_times (trace ?w1) @ ss"
    and l: "length ss = length ds"
    and ub: "length ds \<le> nat (retryAttempts cfg + 1 - int 0)"
    and n: "dispatches (trace (snd ?r)) = dispatches (trace ?w1) + length ds"
    and h: "ds \<noteq> [] \<longrightarrow> hd ds = clock ?w1"
    and g: "gaps ds ss = map (\<lambda>i. int (timer_ms (backoff_delay cfg i))) [0..<0 + (length ds - 1)]"
    and c: "clock (snd ?r) = (if ds = [] then clock ?w1 else last ss)"
    and bo: "backoffs (trace (snd ?r)) =
       backoffs (trace ?w1) @ map (backoff_delay cfg) [0..<0 + (length ds - 1)]"
    by blast
  have bd: "backoff_delay cfg = (\<lambda>i. retryDelay cfg * 2 ^ i)"
    by (rule ext) (simp add: backoff_delay_def)
  have "map (\<lambda>i. int (timer_ms (backoff_delay cfg i))) [0..<length ds - 1] =
        map (\<lambda>i. int (retryDelay cfg * 2 ^ i)) [0..<length ds - 1]"
  proof (rule map_cong[OF refl])
    fix i assume "i \<in> set [0..<length ds - 1]"
    then have "i < length ds - 1" by simp
    with ub have "int i < retryAttempts cfg" by linarith
    with bound have "retryDelay cfg * 2 ^ i \<le> max_timer" by blast
    then show "int (timer_ms (backoff_delay cfg i)) = int (retryDelay cfg * 2 ^ i)"
      by (simp add: backoff_delay_def timer_ms_in_range)
  qed
  with g have g': "gaps ds ss = map (\<lambda>i. int (retryDelay cfg * 2 ^ i)) [0..<length ds - 1]"
    by simp
  show ?thesis
    unfolding request_valid[OF valid] using d s l n h c g' bo unfolding bd by auto
qed

subsection \<open>Attempts that are answered in time\<close>

lemma fetch_in_time:
  "clock w + int l < D \<Longrightarrow>
   fetch D (Responds l r) w =
     (Inr r, emit (Resolved (clock w + int l) (status r))
               ((emit (Dispatch (clock w)) w)\<lparr>clock := clock w + int l\<rparr>))"
  by (simp add: fetch_def Let_def)

lemma fetch_expired:
  "D \<le> clock w \<Longrightarrow>
   fetch D n w = (Inl TimeoutError, emit (Rejected (clock w) TimeoutError) (emit (Dispatch (clock w)) w))"
  by (simp add: fetch_def Let_def)

lemma try_attempt_decode_failure:
  assumes "ok r" and "body r = None" and "clock w + int l < D"
  shows "\<exists>w1. try_attempt cfg D (Responds l r) w = (Inl SyntaxError, w1) \<and>
              clock w1 = clock w + int l \<and> requestCount w1 = Suc (requestCount w)"
  using assms by (simp add: try_attempt_def fetch_in_time Let_def)

text \<open>Such a response is never a success and never a client error, in time or not.\<close>

lemma try_attempt_decode_retryable:
  assumes "ok r" and "body r = None"
  shows "\<exists>e w1. try_attempt cfg D (Responds l r) w = (Inl e, w1) \<and> \<not> is_client_error e"
proof (cases "clock w + int l < D")
  case True
  from try_attempt_decode_failure[OF assms True, of cfg] show ?thesis by auto
next
  case False
  then have "\<exists>w1. fetch D (Responds l r) (logRequest cfg w) = (Inl TimeoutError, w1)"
    by (simp add: fetch_def Let_def)
  then obtain w1 where "fetch D (Responds l r) (logRequest cfg w) = (Inl TimeoutError, w1)" ..
  then have "try_attempt cfg D (Responds l r) w = (Inl TimeoutError, w1)"
    by (simp add: try_attempt_def)
  then show ?thesis by auto
qed

lemma try_attempt_error_status:
  assumes "\<not> ok r" and "clock w + int l < D"
  shows "\<exists>w1. try_attempt cfg D (Responds l r) w = (Inl (api_error_of r), w1) \<and>
              clock w1 = clock w + int l \<and> requestCount w1 = Suc (requestCount w)"
  using assms by (simp add: try_attempt_def fetch_in_time Let_def)

lemma try_attempt_good:
  assumes "ok r" and "body r = Some data" and "clock w + int l < D"
  shows "\<exists>w1. try_attempt cfg D (Responds l r) w = (Inr data, w1) \<and>
              clock w1 = clock w + int l \<and> requestCount w1 = Suc (requestCount w)"
  using assms by (simp add: try_attempt_def fetch_in_time Let_def)

lemma time_through_step:
  "a \<le> k \<Longrightarrow>
   time_through cfg lat a k =
     lat a + (if a < k then backoff_delay cfg a else 0) + time_through cfg lat (Suc a) k"
proof -
  assume le: "a \<le> k"
  then have 1: "[a..<Suc k] = a # [Suc a..<Suc k]"
    by (simp add: upt_conv_Cons)
  have 2: "[a..<k] = (if a < k then a # [Suc a..<k] else [])"
    using le by (simp add: upt_conv_Cons)
  show ?thesis unfolding time_through_def 1 2 by simp
qed

text \<open>
  A 2xx response that arrives in time with a body that does not decode, in an attempt that
  is not the last: the attempt is counted, the decode error is caught, and after the wait
  the loop goes on with the next attempt, whatever comes before or after.
\<close>

lemma decode_failure_step:
  assumes a: "int a < retryAttempts cfg" and n: "net a = Responds l r" and g: "garbled r"
    and t: "clock v + int l < D" and b: "retryDelay cfg * 2 ^ a \<le> max_timer"
  shows "\<exists>v2. executeWithRetry_from cfg D net a le v =
                executeWithRetry_from cfg D net (Suc a) (Some SyntaxError) v2 \<and>
              clock v2 = clock v + int l + int (retryDelay cfg * 2 ^ a) \<and>
              requestCount v2 = Suc (requestCount v) \<and>
              dispatches (trace v2) = Suc (dispatches (trace v)) \<and>
              backoffs (trace v2) = backoffs (trace v) @ [retryDelay cfg * 2 ^ a]"
proof -
  from g have "ok r" and "body r = None" by (simp_all add: garbled_def)
  from try_attempt_decode_failure[OF this t, of cfg] obtain w1 where
    ta: "try_attempt cfg D (Responds l r) v = (Inl SyntaxError, w1)"
    and c: "clock w1 = clock v + int l" and q: "requestCount w1 = Suc (requestCount v)" by blast
  have ta': "try_attempt cfg D (net a) v = (Inl SyntaxError, w1)" using ta n by simp
  let ?v2 = "backoff cfg a (emit (Caught SyntaxError) w1)"
  have le: "int a \<le> retryAttempts cfg" using a by simp
  have unf: "executeWithRetry_from cfg D net a le v =
      executeWithRetry_from cfg D net (Suc a) (Some SyntaxError) ?v2"
    using le ta' by (rule loop_retry) simp
  note F = try_attempt_facts[OF ta']
  have tm: "timer_ms (backoff_delay cfg a) = retryDelay cfg * 2 ^ a"
    using b by (simp add: backoff_delay_def timer_ms_in_range)
  have "clock ?v2 = clock v + int l + int (retryDelay cfg * 2 ^ a)"
    using a c tm by simp
  moreover have "requestCount ?v2 = Suc (requestCount v)" using q by simp
  moreover have "dispatches (trace ?v2) = Suc (dispatches (trace v))" using F(2) by simp
  moreover have "backoffs (trace ?v2) = backoffs (trace v) @ [retryDelay cfg * 2 ^ a]"
    using a F(3) by (simp add: backoff_delay_def)
  ultimately show ?thesis using unf by blast
qed

text \<open>
  Every attempt gets a 2xx response in time whose body does not decode: each is counted,
  each is retried, and the decode error is what remains.
\<close>

lemma loop_decode_failures:
  assumes N: "\<And>i. \<exists>g. net i = Responds (lat i) g \<and> garbled g"
    and B: "\<forall>i. int i < retryAttempts cfg \<longrightarrow> retryDelay cfg * 2 ^ i \<le> max_timer"
  shows "clock w + int (time_through cfg lat a (nat (retryAttempts cfg))) < D \<longrightarrow>
         fst (executeWithRetry_from cfg D net a le w) =
           Inl (if int a \<le> retryAttempts cfg then SyntaxError
                else (case le of Some e \<Rightarrow> e | None \<Rightarrow> Exhausted)) \<and>
         requestCount (snd (executeWithRetry_from cfg D net a le w)) =
           requestCount w + nat (retryAttempts cfg + 1 - int a)"
  (is "?T a w \<longrightarrow> ?C a le w")
proof (induction a le w rule: loop_induct[where cfg=cfg and D=D and net=net])
  case (finished a le w)
  then show ?case by (simp add: loop_done)
next
  case (success a le w d w1)
  show ?case
  proof
    assume t: "?T a w"
    from N[of a] obtain g where g: "net a = Responds (lat a) g" "ok g" "body g = None"
      by (auto simp: garbled_def)
    from success(1) have "a \<le> nat (retryAttempts cfg)" by simp
    from t time_through_step[OF this, of cfg lat] have "clock w + int (lat a) < D" by simp
    with try_attempt_decode_failure[OF g(2,3), of w "lat a" D cfg] g(1) success(2)
    show "?C a le w" by simp
  qed
next
  case (client_error a le w e w1)
  show ?case
  proof
    assume t: "?T a w"
    from N[of a] obtain g where g: "net a = Responds (lat a) g" "ok g" "body g = None"
      by (auto simp: garbled_def)
    from client_error(1) have "a \<le> nat (retryAttempts cfg)" by simp
    from t time_through_step[OF this, of cfg lat] have "clock w + int (lat a) < D" by simp
    with try_attempt_decode_failure[OF g(2,3), of w "lat a" D cfg] g(1) client_error(2,3)
    show "?C a le w" by auto
  qed
next
  case (retry a le w e w1)
  let ?w2 = "backoff cfg a (emit (Caught e) w1)"
  have unf: "executeWithRetry_from cfg D net a le w =
      executeWithRetry_from cfg D net (Suc a) (Some e) ?w2"
    using retry(1-3) by (rule loop_retry)
  show ?case
  proof
    assume t: "?T a w"
    from N[of a] obtain g where g: "net a = Responds (lat a) g" "ok g" "body g = None"
      by (auto simp: garbled_def)
    from retry(1) have ak: "a \<le> nat (retryAttempts cfg)" by simp
    note st = time_through_step[OF ak, of cfg lat]
    from t st have "clock w + int (lat a) < D" by simp
    with try_attempt_decode_failure[OF g(2,3), of w "lat a" D cfg] g(1) retry(2)
    have e: "e = SyntaxError" and c: "clock w1 = clock w + int (lat a)"
      and q: "requestCount w1 = Suc (requestCount w)" by auto
    have tm: "int a < retryAttempts cfg \<Longrightarrow> timer_ms (backoff_delay cfg a) = backoff_delay cfg a"
      using B by (simp add: backoff_delay_def timer_ms_in_range)
    have lt: "a < nat (retryAttempts cfg) \<longleftrightarrow> int a < retryAttempts cfg" by linarith
    have "?T (Suc a) ?w2"
      using t st c tm lt by (simp split: if_splits)
    with retry(4) have IH: "?C (Suc a) (Some e) ?w2" by blast
    have ar: "nat (retryAttempts cfg + 1 - int a) = Suc (nat (retryAttempts cfg - int a))"
      using retry(1) by linarith
    show "?C a le w" unfolding unf using IH e q retry(1) by (simp add: ar)
  qed
qed

text \<open>
  The first \<open>k\<close> attempts get such a response, and attempt \<open>k\<close> then gets a 2xx response
  that decodes, all in time: the call returns its data after \<open>k + 1\<close> counted attempts.
\<close>

lemma loop_decode_recover:
  assumes G: "\<And>i. i < k \<Longrightarrow> \<exists>g. net i = Responds (lat i) g \<and> garbled g"
    and K: "net k = Responds (lat k) r" "ok r" "body r = Some data"
    and kn: "int k \<le> retryAttempts cfg"
    and B: "\<forall>i. int i < retryAttempts cfg \<longrightarrow> retryDelay cfg * 2 ^ i \<le> max_timer"
  shows "a \<le> k \<and> clock w + int (time_through cfg lat a k) < D \<longrightarrow>
         fst (executeWithRetry_from cfg D net a le w) = Inr data \<and>
         requestCount (snd (executeWithRetry_from cfg D net a le w)) =
           requestCount w + (Suc k - a) \<and>
         dispatches (trace (snd (executeWithRetry_from cfg D net a le w))) =
           dispatches (trace w) + (Suc k - a)"
  (is "?T a w \<longrightarrow> ?C a le w")
proof (induction a le w rule: loop_induct[where cfg=cfg and D=D and net=net])
  case (finished a le w)
  then show ?case using kn by auto
next
  case (success a le w d w1)
  show ?case
  proof
    assume t: "?T a w"
    then have ak: "a \<le> k" by simp
    from t time_through_step[OF ak, of cfg lat] have it: "clock w + int (lat a) < D" by simp
    note F = try_attempt_facts[OF success(2)]
    show "?C a le w"
    proof (cases "a < k")
      case True
      from G[OF True] obtain g where g: "net a = Responds (lat a) g" "ok g" "body g = None"
        by (auto simp: garbled_def)
      from try_attempt_decode_failure[OF g(2,3) it, of cfg] g(1) success(2)
      show ?thesis by simp
    next
      case False
      with ak have eq: "a = k" by simp
      from try_attempt_good[OF K(2,3), of w "lat k" D cfg] it eq K(1) success(2)
      have dd: "d = data" and q: "requestCount w1 = Suc (requestCount w)" by auto
      have res: "executeWithRetry_from cfg D net a le w = (Inr d, w1)"
        using success(1,2) by (rule loop_success)
      have ar: "Suc k - a = 1" using eq by simp
      show ?thesis unfolding res ar using dd q F(2) by simp
    qed
  qed
next
  case (client_error a le w e w1)
  show ?case
  proof
    assume t: "?T a w"
    then have ak: "a \<le> k" by simp
    from t time_through_step[OF ak, of cfg lat] have it: "clock w + int (lat a) < D" by simp
    show "?C a le w"
    proof (cases "a < k")
      case True
      from G[OF True] obtain g where g: "net a = Responds (lat a) g" "ok g" "body g = None"
        by (auto simp: garbled_def)
      from try_attempt_decode_failure[OF g(2,3) it, of cfg] g(1) client_error(2,3)
      show ?thesis by auto
    next
      case False
      with ak have eq: "a = k" by simp
      from try_attempt_good[OF K(2,3), of w "lat k" D cfg] it eq K(1) client_error(2)
      show ?thesis by auto
    qed
  qed
next
  case (retry a le w e w1)
  let ?w2 = "backoff cfg a (emit (Caught e) w1)"
  have unf: "executeWithRetry_from cfg D net a le w =
      executeWithRetry_from cfg D net (Suc a) (Some e) ?w2"
    using retry(1-3) by (rule loop_retry)
  show ?case
  proof
    assume t: "?T a w"
    then have ak: "a \<le> k" by simp
    note st = time_through_step[OF ak, of cfg lat]
    from t st have it: "clock w + int (lat a) < D" by simp
    note F = try_attempt_facts[OF retry(2)]
    show "?C a le w"
    proof (cases "a < k")
      case False
      with ak have eq: "a = k" by simp
      from try_attempt_good[OF K(2,3), of w "lat k" D cfg] it eq K(1) retry(2)
      show ?thesis by auto
    next
      case True
      from G[OF True] obtain g where g: "net a = Responds (lat a) g" "ok g" "body g = None"
        by (auto simp: garbled_def)
      from try_attempt_decode_failure[OF g(2,3) it, of cfg] g(1) retry(2)
      have e: "e = SyntaxError" and c: "clock w1 = clock w + int (lat a)"
        and q: "requestCount w1 = Suc (requestCount w)" by auto
      from True kn have an: "int a < retryAttempts cfg" by linarith
      have tm: "timer_ms (backoff_delay cfg a) = backoff_delay cfg a"
        using B an by (simp add: backoff_delay_def timer_ms_in_range)
      have "?T (Suc a) ?w2"
        using t st c tm True an by simp
      with retry(4) have IH: "?C (Suc a) (Some e) ?w2" by blast
      have ar: "Suc k - a = Suc (Suc k - Suc a)" using True by simp
      show ?thesis unfolding unf using IH q F(2) by (simp add: ar)
    qed
  qed
qed

subsection \<open>Error bodies\<close>

lemma api_error_of_not_null:
  "body r \<noteq> Some JNull \<Longrightarrow>
   \<exists>m. api_error_of r = FireflyApiError m (status r) (parseErrorResponse r)"
proof -
  assume n: "body r \<noteq> Some JNull"
  have "parseErrorResponse r \<noteq> JNull"
    using n by (cases "body r") (simp_all add: parseErrorResponse_def)
  then have "api_error_of r \<noteq> NullDereference"
    by (cases "get_message (parseErrorResponse r)")
       (auto simp: api_error_of_def Let_def dest: get_message_Inl)
  with api_error_of_cases[of r] show ?thesis by blast
qed

text \<open>What the thrown error is for the bodies that do decode.\<close>

lemma api_error_of_null_body:
  "body r = Some JNull \<Longrightarrow> api_error_of r = NullDereference"
  by (simp add: api_error_of_def parseErrorResponse_def Let_def)

lemma api_error_of_no_message:
  assumes "body r = Some j" and "j \<noteq> JNull"
    and "get_message j = Inr None \<or> (\<exists>v. get_message j = Inr (Some v) \<and> \<not> truthy v)"
  shows "api_error_of r = FireflyApiError (JStr (http_message r)) (status r) j"
  using assms by (auto simp: api_error_of_def parseErrorResponse_def Let_def)

subsection \<open>The loop of the importer\<close>

lemma lines_simps [simp]:
  "creating_lines [] = []" "created_lines [] = []" "failed_lines [] = []"
  "creating_lines (xs @ ys) = creating_lines xs @ creating_lines ys"
  "created_lines (xs @ ys) = created_lines xs @ created_lines ys"
  "failed_lines (xs @ ys) = failed_lines xs @ failed_lines ys"
  "creating_lines (l # ls) = (case l of InfoCreating n \<Rightarrow> [n] | _ \<Rightarrow> []) @ creating_lines ls"
  "created_lines (l # ls) = (case l of DebugCreated n \<Rightarrow> [n] | _ \<Rightarrow> []) @ created_lines ls"
  "failed_lines (l # ls) = (case l of ErrorFailed n e \<Rightarrow> [n] | _ \<Rightarrow> []) @ failed_lines ls"
  by (simp_all add: creating_lines_def created_lines_def failed_lines_def)

lemma import_loop_counts:
  "created (fst (import_loop f cs st w)) + errors (fst (import_loop f cs st w)) =
     created st + errors st + length cs \<and>
   creating_lines (log (fst (import_loop f cs st w))) = creating_lines (log st) @ map name cs \<and>
   created (fst (import_loop f cs st w)) + length (created_lines (log st)) =
     created st + length (created_lines (log (fst (import_loop f cs st w)))) \<and>
   errors (fst (import_loop f cs st w)) + length (failed_lines (log st)) =
     errors st + length (failed_lines (log (fst (import_loop f cs st w))))"
proof (induction cs arbitrary: st w)
  case Nil
  show ?case by simp
next
  case (Cons c cs)
  obtain r w1 where f: "f c w = (r, w1)" by (cases "f c w")
  show ?case
  proof (cases r)
    case (Inl e)
    let ?st = "st\<lparr>log := log st @ [InfoCreating (name c)]\<rparr>
                \<lparr>errors := errors st + 1,
                 log := log st @ [InfoCreating (name c)] @ [ErrorFailed (name c) e]\<rparr>"
    have u: "import_loop f (c # cs) st w = import_loop f cs ?st w1"
      by (simp add: f Inl Let_def)
    show ?thesis unfolding u using Cons.IH[of ?st w1] by simp
  next
    case (Inr d)
    let ?st = "st\<lparr>log := log st @ [InfoCreating (name c)]\<rparr>
                \<lparr>created := created st + 1,
                 log := log st @ [InfoCreating (name c)] @ [DebugCreated (name c)]\<rparr>"
    have u: "import_loop f (c # cs) st w = import_loop f cs ?st (idle 100 w1)"
      by (simp add: f Inr Let_def)
    show ?thesis unfolding u using Cons.IH[of ?st "idle 100 w1"] by simp
  qed
qed

text \<open>
  The loop calls \<open>createCategory\<close> exactly as \<open>createCategory_calls\<close> does, moves
  \<open>errors\<close> by one for each call that returned an error and \<open>created\<close> by one for each
  call that returned a value, and logs the lines of each item in turn.
\<close>

lemma import_loop_calls:
  "snd (import_loop f cs st w) = snd (createCategory_calls f cs w) \<and>
   length (fst (createCategory_calls f cs w)) = length cs \<and>
   errors (fst (import_loop f cs st w)) =
     errors st + length (filter isl (fst (createCategory_calls f cs w))) \<and>
   created (fst (import_loop f cs st w)) =
     created st + length (filter (\<lambda>r. \<not> isl r) (fst (createCategory_calls f cs w))) \<and>
   log (fst (import_loop f cs st w)) =
     log st @ concat (map2 item_lines cs (fst (createCategory_calls f cs w)))"
proof (induction cs arbitrary: st w)
  case Nil
  show ?case by simp
next
  case (Cons c cs)
  obtain r w1 where f: "f c w = (r, w1)" by (cases "f c w")
  show ?case
  proof (cases r)
    case (Inl e)
    let ?st = "st\<lparr>log := log st @ [InfoCreating (name c)]\<rparr>
                \<lparr>errors := errors st + 1,
                 log := log st @ [InfoCreating (name c)] @ [ErrorFailed (name c) e]\<rparr>"
    obtain rs w2 where k: "createCategory_calls f cs w1 = (rs, w2)"
      by (cases "createCategory_calls f cs w1")
    have u: "import_loop f (c # cs) st w = import_loop f cs ?st w1"
      by (simp add: f Inl Let_def)
    have v: "createCategory_calls f (c # cs) w = (Inl e # rs, w2)"
      by (simp add: f Inl k)
    show ?thesis unfolding u v using Cons.IH[of ?st w1] by (simp add: k item_lines_def)
  next
    case (Inr d)
    let ?st = "st\<lparr>log := log st @ [InfoCreating (name c)]\<rparr>
                \<lparr>created := created st + 1,
                 log := log st @ [InfoCreating (name c)] @ [DebugCreated (name c)]\<rparr>"
    obtain rs w2 where k: "createCategory_calls f cs (idle 100 w1) = (rs, w2)"
      by (cases "createCategory_calls f cs (idle 100 w1)")
    have u: "import_loop f (c # cs) st w = import_loop f cs ?st (idle 100 w1)"
      by (simp add: f Inr Let_def)
    have v: "createCategory_calls f (c # cs) w = (Inr d # rs, w2)"
      by (simp add: f Inr k)
    show ?thesis unfolding u v using Cons.IH[of ?st "idle 100 w1"] by (simp add: k item_lines_def)
  qed
qed

section \<open>The claims\<close>

lemmas example_defs = example_config_def ok_response_def unavailable_def forbidden_def
  not_found_null_def unavailable_null_def garbled_ok_def flaky_def slow_start_def
  garbled_once_def warm_client_def new_client_def

lemmas run_defs = request_def handleRateLimit_def sleep_gate_def executeWithRetry_def
  executeWithRetry_from.simps try_attempt_def fetch_def logRequest_def logResponse_def
  emit_def backoff_def api_error_of_def parseErrorResponse_def http_message_def ok_def
  testConnection_def timer_ms_def max_timer_def Let_def

subsection \<open>C1: the deadline of the attempts\<close>

text \<open>
  The signal is made once in \<^verbatim>\<open>request\<close> and handed to every \<^verbatim>\<open>fetch\<close> of the
  loop. Once it has aborted, each later attempt is rejected as soon as it is dispatched.
\<close>

lemma expired_signal_rejects:
  "D \<le> clock w \<Longrightarrow>
   fst (fetch D n w) = Inl TimeoutError \<and> clock (snd (fetch D n w)) = clock w"
  by (simp add: fetch_expired)

lemma try_attempt_expired:
  "D \<le> clock w \<Longrightarrow>
   \<exists>w1. try_attempt cfg D n w = (Inl TimeoutError, w1) \<and> clock w1 = clock w \<and>
        requestCount w1 = requestCount w"
  by (simp add: try_attempt_def fetch_expired)

text \<open>
  Once the deadline of the call has passed, no attempt can succeed, whatever the network
  would answer: each is rejected as it is dispatched and the call ends with the timeout.
\<close>

lemma expired_deadline_dooms_retries:
  "D \<le> clock w \<longrightarrow>
   fst (executeWithRetry_from cfg D net a le w) =
     Inl (if int a \<le> retryAttempts cfg then TimeoutError
          else (case le of Some e \<Rightarrow> e | None \<Rightarrow> Exhausted)) \<and>
   requestCount (snd (executeWithRetry_from cfg D net a le w)) = requestCount w"
proof (induction a le w rule: loop_induct[where cfg=cfg and D=D and net=net])
  case (finished a le w)
  then show ?case by (simp add: loop_done)
next
  case (success a le w d w1)
  then show ?case using try_attempt_expired[of D w cfg "net a"] by auto
next
  case (client_error a le w e w1)
  then show ?case using try_attempt_expired[of D w cfg "net a"] by auto
next
  case (retry a le w e w1)
  let ?w2 = "backoff cfg a (emit (Caught e) w1)"
  have unf: "executeWithRetry_from cfg D net a le w =
      executeWithRetry_from cfg D net (Suc a) (Some e) ?w2"
    using retry(1-3) by (rule loop_retry)
  show ?case
  proof
    assume x: "D \<le> clock w"
    with try_attempt_expired[of D w cfg "net a"] retry(2)
    have e: "e = TimeoutError" and c: "clock w1 = clock w" and q: "requestCount w1 = requestCount w"
      by auto
    have "clock w \<le> clock ?w2" using c by simp
    with x have "D \<le> clock ?w2" by linarith
    with retry(4) have
      "fst (executeWithRetry_from cfg D net (Suc a) (Some e) ?w2) =
         Inl (if int (Suc a) \<le> retryAttempts cfg then TimeoutError
              else (case Some e of Some e \<Rightarrow> e | None \<Rightarrow> Exhausted))"
      and "requestCount (snd (executeWithRetry_from cfg D net (Suc a) (Some e) ?w2)) = requestCount ?w2"
      by blast+
    then show "fst (executeWithRetry_from cfg D net a le w) =
     Inl (if int a \<le> retryAttempts cfg then TimeoutError
          else (case le of Some e \<Rightarrow> e | None \<Rightarrow> Exhausted)) \<and>
     requestCount (snd (executeWithRetry_from cfg D net a le w)) = requestCount w"
      unfolding unf using e q retry(1) by simp
  qed
qed

text \<open>
  Claim C1 at a timeout of 1000 ms, one retry, and a server that leaves the first request
  unanswered and would answer the second after 10 ms. The first attempt is aborted at its
  deadline (2100); after the wait of 500 ms the second attempt is dispatched at 2600 and
  rejected at 2600, with no time budget of its own, and the call ends with the timeout.
  Under a deadline of its own, 1000 ms after its dispatch, the same attempt would have
  received the answer.
\<close>

theorem one_deadline_for_all_attempts:
  "timeout example_config = 1000 \<and>
   slow_start 1 = Responds 10 ok_response \<and>
   fst (request example_config slow_start warm_client) = Inl TimeoutError \<and>
   trace (snd (request example_config slow_start warm_client)) =
     [GateWait 70, Dispatch 1100, Rejected 2100 TimeoutError, Caught TimeoutError,
      ConsoleWarn 1 2 500, BackoffWait 500,
      Dispatch 2600, Rejected 2600 TimeoutError, Caught TimeoutError] \<and>
   fst (fetch (2600 + int (timeout example_config)) (slow_start 1) (new_client 2600)) =
     Inr ok_response"
  by (simp add: example_defs run_defs)

subsection \<open>C2: what the request counter counts\<close>

text \<open>
  Claim C2, as the code has it. The counter is incremented after \<^verbatim>\<open>fetch\<close> has given
  a response, so an attempt moves it by one exactly when it obtained a response, whatever
  the status and whether or not the body decodes, and not at all when \<^verbatim>\<open>fetch\<close>
  rejects (connection refused, timeout). Over one call of \<^verbatim>\<open>request\<close> the counter
  grows by the number of responses received, and every dispatch ends in a response or in
  a rejection.
\<close>

theorem counter_counts_responses:
  "requestCount (snd (try_attempt cfg D n w)) =
     requestCount w + (if isl (fst (fetch D n (logRequest cfg w))) then 0 else 1) \<and>
   requestCount (snd (request cfg net w)) + responses (trace w) =
     requestCount w + responses (trace (snd (request cfg net w))) \<and>
   dispatches (trace (snd (request cfg net w))) + (responses (trace w) + rejections (trace w)) =
     dispatches (trace w) +
       (responses (trace (snd (request cfg net w))) + rejections (trace (snd (request cfg net w))))"
proof -
  obtain r w1 where f: "fetch D n (logRequest cfg w) = (r, w1)"
    by (cases "fetch D n (logRequest cfg w)")
  note F = fetch_result_facts[OF f]
  have "requestCount (snd (try_attempt cfg D n w)) =
     requestCount w + (if isl (fst (fetch D n (logRequest cfg w))) then 0 else 1)"
    by (cases r) (simp_all add: try_attempt_def f Let_def F split: option.splits)
  then show ?thesis using request_count[of cfg net w] request_settled[of cfg net w] by blast
qed

text \<open>
  Claim C2 as stated fails: against a host that refuses the connection, a new client with
  one retry dispatches twice and its counter stays at 0.
\<close>

theorem counter_skips_network_failure:
  "requestCount (snd (request example_config (\<lambda>i. Fails 5) (new_client 1000))) \<noteq>
     requestCount (new_client 1000) +
       dispatches (trace (snd (request example_config (\<lambda>i. Fails 5) (new_client 1000))))"
  by (simp add: example_defs run_defs)

lemma network_failure_run:
  "requestCount (snd (request example_config (\<lambda>i. Fails 5) (new_client 1000))) = 0 \<and>
   dispatches (trace (snd (request example_config (\<lambda>i. Fails 5) (new_client 1000)))) = 2 \<and>
   rejections (trace (snd (request example_config (\<lambda>i. Fails 5) (new_client 1000)))) = 2"
  by (simp add: example_defs run_defs)

subsection \<open>C3: client errors are not retried, except with a \<^verbatim>\<open>null\<close> body\<close>

text \<open>
  When the first attempt receives, in time, a response with a status from 400 to 499 whose
  body is not the JSON value \<^verbatim>\<open>null\<close>, the call ends at once with the
  \<^verbatim>\<open>FireflyApiError\<close> of that status: one dispatch, no wait, the counter one higher.
\<close>

lemma client_error_not_retried:
  assumes valid: "baseUrlValid cfg" and n0: "0 \<le> retryAttempts cfg"
    and net0: "net 0 = Responds l r" and intime: "l < timeout cfg"
    and tb: "timeout cfg \<le> max_timer"
    and lo: "400 \<le> status r" and hi: "status r < 500" and nn: "body r \<noteq> Some JNull"
  shows "(\<exists>m. fst (request cfg net w) = Inl (FireflyApiError m (status r) (parseErrorResponse r))) \<and>
         dispatches (trace (snd (request cfg net w))) = Suc (dispatches (trace w)) \<and>
         backoffs (trace (snd (request cfg net w))) = backoffs (trace w) \<and>
         requestCount (snd (request cfg net w)) = Suc (requestCount w)"
proof -
  let ?w1 = "handleRateLimit w"
  let ?D = "clock ?w1 + int (timer_ms (timeout cfg))"
  have nok: "\<not> ok r" using lo by (simp add: ok_def)
  have "clock ?w1 + int l < ?D" using intime tb by (simp add: timer_ms_def)
  from try_attempt_error_status[OF nok this, of cfg] obtain w2 where
    t: "try_attempt cfg ?D (Responds l r) ?w1 = (Inl (api_error_of r), w2)"
    and q: "requestCount w2 = Suc (requestCount ?w1)" by blast
  from api_error_of_not_null[OF nn] obtain m where
    m: "api_error_of r = FireflyApiError m (status r) (parseErrorResponse r)" by blast
  have ce: "is_client_error (api_error_of r)" using m lo hi by simp
  have le: "int 0 \<le> retryAttempts cfg" using n0 by simp
  have t': "try_attempt cfg ?D (net 0) ?w1 = (Inl (api_error_of r), w2)"
    using t net0 by simp
  have res: "executeWithRetry_from cfg ?D net 0 None ?w1 = (Inl (api_error_of r), emit (Caught (api_error_of r)) w2)"
    using le t' ce by (rule loop_client_error)
  note F = try_attempt_facts[OF t']
  show ?thesis
    unfolding request_valid[OF valid] res using m q F(2,3) by simp
qed

lemma forbidden_is_not_retried:
  "fst (request example_config (\<lambda>i. Responds 10 forbidden) warm_client) =
     Inl (FireflyApiError (JStr ''Forbidden'') 403 (JObj [(''message'', JStr ''Forbidden'')])) \<and>
   dispatches (trace (snd (request example_config (\<lambda>i. Responds 10 forbidden) warm_client))) = 1 \<and>
   backoffs (trace (snd (request example_config (\<lambda>i. Responds 10 forbidden) warm_client))) = [] \<and>
   requestCount (snd (request example_config (\<lambda>i. Responds 10 forbidden) warm_client)) =
     requestCount warm_client + 1"
  using client_error_not_retried[of example_config "\<lambda>i. Responds 10 forbidden" 10 forbidden warm_client]
  by (simp add: example_defs run_defs)

text \<open>
  Claim C3 at a 404 whose body is the JSON text \<^verbatim>\<open>null\<close>:
  \<^verbatim>\<open>response.json()\<close> gives \<^verbatim>\<open>null\<close>, reading \<^verbatim>\<open>errorData.message\<close>
  throws a \<^verbatim>\<open>TypeError\<close> before the \<^verbatim>\<open>FireflyApiError\<close> is built, and the
  \<^verbatim>\<open>catch\<close> block, which sees no \<^verbatim>\<open>FireflyApiError\<close>, waits and retries. The
  call makes two dispatches with a wait of 500 ms between them, moves the counter by two,
  and ends with the \<^verbatim>\<open>TypeError\<close> instead of an API error of status 404.
\<close>

theorem client_error_with_null_body_is_retried:
  "status not_found_null = 404 \<and>
   fst (request example_config (\<lambda>i. Responds 10 not_found_null) warm_client) = Inl NullDereference \<and>
   dispatches (trace (snd (request example_config (\<lambda>i. Responds 10 not_found_null) warm_client))) = 2 \<and>
   backoffs (trace (snd (request example_config (\<lambda>i. Responds 10 not_found_null) warm_client))) = [500] \<and>
   requestCount (snd (request example_config (\<lambda>i. Responds 10 not_found_null) warm_client)) =
     requestCount warm_client + 2"
  by (simp add: example_defs run_defs)

subsection \<open>C4: a run in which every attempt fails and is retried\<close>



subsection \<open>C5: the rate-limit gate\<close>

text \<open>
  Claim C5. When less than 100 ms have passed since \<open>lastRequestTime\<close>, the gate waits
  for exactly the difference, which is positive; otherwise it does not wait. It then sets
  \<open>lastRequestTime\<close> to the current time, before anything is dispatched. The retry loop
  neither waits at the gate again nor touches \<open>lastRequestTime\<close>: after the call it is
  still the time at which the gate was passed, which is the time of the first dispatch.
\<close>

theorem rate_limit_gate:
  "(clock w - lastRequestTime w < 100 \<longrightarrow>
      gate_waits (trace (handleRateLimit w)) =
        gate_waits (trace w) @ [100 - (clock w - lastRequestTime w)] \<and>
      0 < 100 - (clock w - lastRequestTime w) \<and>
      clock (handleRateLimit w) = clock w + (100 - (clock w - lastRequestTime w))) \<and>
   (\<not> clock w - lastRequestTime w < 100 \<longrightarrow>
      handleRateLimit w = w\<lparr>lastRequestTime := clock w\<rparr>) \<and>
   lastRequestTime (handleRateLimit w) = clock (handleRateLimit w) \<and>
   dispatches (trace (handleRateLimit w)) = dispatches (trace w) \<and>
   lastRequestTime (snd (request cfg net w)) = clock (handleRateLimit w) \<and>
   gate_waits (trace (snd (request cfg net w))) = gate_waits (trace (handleRateLimit w)) \<and>
   (baseUrlValid cfg \<and> 0 \<le> retryAttempts cfg \<longrightarrow>
      (\<exists>ts. dispatch_times (trace (snd (request cfg net w))) =
              dispatch_times (trace w) @ clock (handleRateLimit w) # ts))"
proof -
  have "\<not> clock w - lastRequestTime w < 100 \<Longrightarrow> handleRateLimit w = w\<lparr>lastRequestTime := clock w\<rparr>"
    by (simp add: handleRateLimit_def Let_def)
  then show ?thesis
    using request_unchanged(1,2)[of cfg net w] request_first_dispatch[of cfg net w]
    by (simp add: handleRateLimit_clock)
qed

text \<open>
  A call issued 30 ms after the last one waits 70 ms; the call is retried once, 510 ms
  later, and the timestamp stays at the time the gate was passed. A first call, long after
  time 0, does not wait.
\<close>

theorem rate_limit_gate_witness:
  "clock warm_client - lastRequestTime warm_client < 100 \<and>
   baseUrlValid example_config \<and> 0 \<le> retryAttempts example_config \<and>
   gate_waits (trace (handleRateLimit warm_client)) = [70] \<and>
   clock (handleRateLimit warm_client) = 1100 \<and>
   lastRequestTime (snd (request example_config flaky warm_client)) = 1100 \<and>
   gate_waits (trace (snd (request example_config flaky warm_client))) = [70] \<and>
   dispatch_times (trace (snd (request example_config flaky warm_client))) = [1100, 1610] \<and>
   \<not> clock (new_client 5000) - lastRequestTime (new_client 5000) < 100 \<and>
   handleRateLimit (new_client 5000) =
     \<lparr>clock = 5000, lastRequestTime = 5000, requestCount = 0, trace = []\<rparr>"
  using rate_limit_gate[of warm_client example_config flaky]
    rate_limit_gate[of "new_client 5000" example_config flaky]
  by (simp add: example_defs run_defs)

subsection \<open>C6: an error response whose body is no error envelope\<close>

text \<open>
  When an attempt receives a response with an error status whose body is absent or is not
  JSON text (\<^verbatim>\<open>response.json()\<close> rejects), the attempt throws a
  \<^verbatim>\<open>FireflyApiError\<close> with the status of the response and the message
  \<^verbatim>\<open>HTTP <status>: <statusText>\<close>. The same holds for a body that decodes to any JSON
  value but \<^verbatim>\<open>null\<close> and has no usable message (\<open>api_error_of_no_message\<close>).
\<close>

lemma undecodable_error_body:
  assumes "fst (fetch D n (logRequest cfg w)) = Inr r" and "\<not> ok r" and "body r = None"
  shows "fst (try_attempt cfg D n w) =
           Inl (FireflyApiError
                  (JStr (''HTTP '' @ string_of_nat (status r) @ '': '' @ statusText r))
                  (status r)
                  (JObj [(''message'',
                          JStr (''HTTP '' @ string_of_nat (status r) @ '': '' @ statusText r))]))"
proof -
  obtain x w1 where f: "fetch D n (logRequest cfg w) = (x, w1)"
    by (cases "fetch D n (logRequest cfg w)")
  with assms(1) have x: "x = Inr r" by simp
  have "api_error_of r =
     FireflyApiError (JStr (http_message r)) (status r) (JObj [(''message'', JStr (http_message r))])"
    using assms(3) by (simp add: api_error_of_def parseErrorResponse_def Let_def http_message_def)
  then show ?thesis
    using assms(2) by (simp add: try_attempt_def f x Let_def http_message_def)
qed

text \<open>A 503 without a body.\<close>

lemma undecodable_error_body_example:
  "fst (fetch 5000 (Responds 10 unavailable) (logRequest example_config warm_client)) = Inr unavailable \<and>
   \<not> ok unavailable \<and> body unavailable = None \<and>
   fst (try_attempt example_config 5000 (Responds 10 unavailable) warm_client) =
     Inl (FireflyApiError (JStr ''HTTP 503: Service Unavailable'') 503
            (JObj [(''message'', JStr ''HTTP 503: Service Unavailable'')]))"
  using undecodable_error_body[of 5000 "Responds 10 unavailable" example_config warm_client unavailable]
  by (simp add: example_defs run_defs string_of_nat.simps)

text \<open>
  Claim C6 at a 503 whose body is the JSON text \<^verbatim>\<open>null\<close>. The body is no error
  envelope, and the claim has the classification degrade to an API error with the message
  \<^verbatim>\<open>HTTP 503: Service Unavailable\<close>. In the code \<^verbatim>\<open>parseErrorResponse\<close> returns
  \<^verbatim>\<open>null\<close>, reading \<^verbatim>\<open>errorData.message\<close> throws, and the attempt ends in a
  \<^verbatim>\<open>TypeError\<close> that is no \<^verbatim>\<open>FireflyApiError\<close> and carries no status; so does
  the whole call.
\<close>

theorem error_status_with_null_body_is_not_classified:
  "\<not> ok unavailable_null \<and> body unavailable_null = Some JNull \<and>
   parseErrorResponse unavailable_null = JNull \<and>
   fst (try_attempt example_config 5000 (Responds 10 unavailable_null) warm_client) =
     Inl NullDereference \<and>
   \<not> is_api_error NullDereference \<and>
   fst (request example_config (\<lambda>i. Responds 10 unavailable_null) warm_client) =
     Inl NullDereference"
  by (simp add: example_defs run_defs)

subsection \<open>C7: the connectivity probe\<close>

text \<open>
  Claim C7. \<^verbatim>\<open>testConnection\<close> always settles with a boolean and never with an error:
  \<open>True\<close> when the request succeeded, and \<open>False\<close> when it failed with any error, which
  it then writes with \<^verbatim>\<open>console.error\<close>.
\<close>

theorem probe_never_fails:
  "(\<exists>b. fst (testConnection cfg net w) = Inr b) \<and>
   (\<forall>d. fst (request cfg net w) = Inr d \<longrightarrow>
        fst (testConnection cfg net w) = Inr True \<and>
        console_errors (trace (snd (testConnection cfg net w))) = console_errors (trace w)) \<and>
   (\<forall>e. fst (request cfg net w) = Inl e \<longrightarrow>
        fst (testConnection cfg net w) = Inr False \<and>
        console_errors (trace (snd (testConnection cfg net w))) = console_errors (trace w) @ [e])"
proof -
  obtain r w1 where q: "request cfg net w = (r, w1)" by (cases "request cfg net w")
  from request_unchanged(3)[of cfg net w] q
  have c: "console_errors (trace w1) = console_errors (trace w)" by simp
  show ?thesis by (cases r) (auto simp: testConnection_def q c)
qed

text \<open>
  An unreachable host and a 403 both give \<open>False\<close> (the first logs the network error); a
  server that answers on the second attempt gives \<open>True\<close>.
\<close>

theorem probe_never_fails_witness:
  "fst (request example_config (\<lambda>i. Fails 5) warm_client) = Inl FetchFailed \<and>
   fst (testConnection example_config (\<lambda>i. Fails 5) warm_client) = Inr False \<and>
   console_errors (trace (snd (testConnection example_config (\<lambda>i. Fails 5) warm_client))) = [FetchFailed] \<and>
   fst (request example_config (\<lambda>i. Responds 10 forbidden) warm_client) =
     Inl (FireflyApiError (JStr ''Forbidden'') 403 (JObj [(''message'', JStr ''Forbidden'')])) \<and>
   fst (testConnection example_config (\<lambda>i. Responds 10 forbidden) warm_client) = Inr False \<and>
   fst (request example_config flaky warm_client) = Inr (JObj [(''data'', JArr [])]) \<and>
   fst (testConnection example_config flaky warm_client) = Inr True"
  using probe_never_fails[of example_config "\<lambda>i. Fails 5" warm_client]
    probe_never_fails[of example_config "\<lambda>i. Responds 10 forbidden" warm_client]
    probe_never_fails[of example_config flaky warm_client]
  by (simp add: example_defs run_defs)

subsection \<open>C8: the bulk importer counts every item and goes on after a failure\<close>

text \<open>
  Claim C8. The importer calls \<open>createCategory\<close> once on every item of the list, in order,
  whatever the calls before returned. \<open>errors\<close> is the number of calls that returned an
  error and \<open>created\<close> the number of calls that returned a value, so the two counts of
  the summary add up to the number of items; and the log holds, item by item, the line of
  the attempt followed by the one line of its outcome.
\<close>

theorem import_counts_every_item:
  "length (fst (createCategory_calls f cs w)) = length cs \<and>
   errors (fst (importCategories f cs w)) =
     length (filter isl (fst (createCategory_calls f cs w))) \<and>
   created (fst (importCategories f cs w)) =
     length (filter (\<lambda>r. \<not> isl r) (fst (createCategory_calls f cs w))) \<and>
   created (fst (importCategories f cs w)) + errors (fst (importCategories f cs w)) = length cs \<and>
   log (fst (importCategories f cs w)) =
     InfoStarting (length cs) #
     concat (map2 item_lines cs (fst (createCategory_calls f cs w))) @
     [InfoSummary (created (fst (importCategories f cs w)))
        (errors (fst (importCategories f cs w))) (length cs),
      if errors (fst (importCategories f cs w)) > 0 then WarnSomeFailed else InfoAllImported] \<and>
   snd (importCategories f cs w) = snd (createCategory_calls f cs w) \<and>
   creating_lines (log (fst (importCategories f cs w))) = map name cs \<and>
   created (fst (importCategories f cs w)) = length (created_lines (log (fst (importCategories f cs w)))) \<and>
   errors (fst (importCategories f cs w)) = length (failed_lines (log (fst (importCategories f cs w)))) \<and>
   InfoSummary (created (fst (importCategories f cs w))) (errors (fst (importCategories f cs w)))
       (length cs) \<in> set (log (fst (importCategories f cs w)))"
proof -
  let ?st0 = "\<lparr>created = 0, errors = 0, log = [InfoStarting (length cs)]\<rparr>"
  let ?rs = "fst (createCategory_calls f cs w)"
  obtain st w1 where l: "import_loop f cs ?st0 w = (st, w1)"
    by (cases "import_loop f cs ?st0 w")
  from import_loop_counts[of f cs ?st0 w] l
  have 1: "created st + errors st = length cs"
    and 2: "creating_lines (log st) = map name cs"
    and 3: "created st = length (created_lines (log st))"
    and 4: "errors st = length (failed_lines (log st))" by simp_all
  from import_loop_calls[of f cs ?st0 w] l
  have 5: "w1 = snd (createCategory_calls f cs w)"
    and 6: "length ?rs = length cs"
    and 7: "errors st = length (filter isl ?rs)"
    and 8: "created st = length (filter (\<lambda>r. \<not> isl r) ?rs)"
    and 9: "log st = InfoStarting (length cs) # concat (map2 item_lines cs ?rs)" by simp_all
  have I: "importCategories f cs w =
      (st\<lparr>log := log st @ [InfoSummary (created st) (errors st) (length cs),
                            if errors st > 0 then WarnSomeFailed else InfoAllImported]\<rparr>, w1)"
    by (simp add: importCategories_def l)
  show ?thesis unfolding I using 1 2 3 4 5 6 7[symmetric] 8[symmetric] 9 by simp
qed

text \<open>
  Three items, the second of which the server rejects with a 422: it is counted as the one
  failure, and the third item is still created.
\<close>

lemma import_example:
  "fst (createCategory_calls example_createCategory example_categories (new_client 1000)) =
     [Inr (JObj [(''data'', JObj [])]),
      Inl (FireflyApiError (JStr ''The name has already been taken.'') 422
             (JObj [(''message'', JStr ''The name has already been taken.'')])),
      Inr (JObj [(''data'', JObj [])])] \<and>
   created (fst (importCategories example_createCategory example_categories (new_client 1000))) = 2 \<and>
   errors (fst (importCategories example_createCategory example_categories (new_client 1000))) = 1 \<and>
   log (fst (importCategories example_createCategory example_categories (new_client 1000))) =
     [InfoStarting 3,
      InfoCreating ''Food'', DebugCreated ''Food'',
      InfoCreating ''Groceries'',
      ErrorFailed ''Groceries''
        (FireflyApiError (JStr ''The name has already been taken.'') 422
           (JObj [(''message'', JStr ''The name has already been taken.'')])),
      InfoCreating ''Rent'', DebugCreated ''Rent'',
      InfoSummary 2 1 3, WarnSomeFailed]"
  by (simp add: importCategories_def example_createCategory_def example_categories_def
      created_response_def duplicate_response_def idle_def example_defs run_defs)

subsection \<open>C9: the counter never decreases; the timestamp is the time of the gate\<close>

text \<open>
  Claim C9, as the code has it. No operation decreases the request counter: not a call of
  \<^verbatim>\<open>request\<close>, not the probe, not \<^verbatim>\<open>getStats\<close> (which changes nothing), and
  so no sequence of them. \<open>lastRequestTime\<close> is the time at which the most recent call
  passed the rate-limit gate, which is the time of that call's first dispatch; later
  attempts of the same call do not move it.
\<close>

theorem counter_monotone_timestamp_at_gate:
  "requestCount w \<le> requestCount (run cfg ops w) \<and>
   requestCount w \<le> requestCount (snd (request cfg net w)) \<and>
   requestCount w \<le> requestCount (snd (testConnection cfg net w)) \<and>
   snd (getStats w) = w \<and>
   lastRequestTime (snd (request cfg net w)) = clock (handleRateLimit w) \<and>
   lastRequestTime (snd (testConnection cfg net w)) = clock (handleRateLimit w) \<and>
   (baseUrlValid cfg \<and> 0 \<le> retryAttempts cfg \<longrightarrow>
      (\<exists>ts. dispatch_times (trace (snd (request cfg net w))) =
              dispatch_times (trace w) @ lastRequestTime (snd (request cfg net w)) # ts))"
  using run_mono[of w cfg ops] request_mono[of w cfg net] testConnection_mono[of w cfg net]
    request_unchanged(1)[of cfg net w] testConnection_lastRequestTime[of cfg net w]
    request_first_dispatch[of cfg net w]
  by (simp add: getStats_def)

text \<open>
  A session of three operations takes the counter from 7 to 9; in the retried call the
  timestamp is the time of the first of the two dispatches.
\<close>

theorem counter_monotone_timestamp_at_gate_witness:
  "baseUrlValid example_config \<and> 0 \<le> retryAttempts example_config \<and>
   requestCount warm_client = 7 \<and>
   requestCount (run example_config [(0, Execute flaky), (20, Stats), (5, Probe (\<lambda>i. Fails 5))] warm_client) = 9 \<and>
   lastRequestTime (snd (request example_config flaky warm_client)) = 1100 \<and>
   dispatch_times (trace (snd (request example_config flaky warm_client))) = [1100, 1610]"
  using counter_monotone_timestamp_at_gate[of warm_client example_config
      "[(0, Execute flaky), (20, Stats), (5, Probe (\<lambda>i. Fails 5))]" flaky]
  by (simp add: example_defs run_defs idle_def getStats_def)

text \<open>
  Claim C9 as stated fails in its second half: after a call that was retried, the timestamp
  (1100) is not the time of the most recent dispatch attempt (1610).
\<close>

theorem timestamp_is_not_last_dispatch:
  "lastRequestTime (snd (request example_config flaky warm_client)) \<noteq>
     last (dispatch_times (trace (snd (request example_config flaky warm_client))))"
  by (simp add: example_defs run_defs)

subsection \<open>C10: a success response whose body is not JSON\<close>

text \<open>
  Claim C10, for settings within the range of the platform's timers. A 2xx response whose
  body does not decode is not propagated like an API error but retried like a network
  failure:

  \<^item> in any attempt but the last, when such a response arrives in time, the attempt is
    counted, and the loop goes on with the next attempt exactly \<open>retryDelay * 2 ^ a\<close> ms
    later, whatever the attempts before and after it do;
  \<^item> when the first \<open>k\<close> attempts get such a response and attempt \<open>k\<close> gets a 2xx
    response that decodes, the call returns that data after \<open>k + 1\<close> counted attempts,
    each dispatched \<open>retryDelay * 2 ^ i\<close> ms after the end of the one before;
  \<^item> when all \<open>1 + retryAttempts\<close> attempts get such a response, the call ends with the
    plain decode error, which is not a \<^verbatim>\<open>FireflyApiError\<close> and carries no status.
\<close>

theorem decode_failure_is_retried:
  assumes "baseUrlValid cfg" and "0 \<le> retryAttempts cfg" and "timeout cfg \<le> max_timer"
    and "\<forall>i. int i < retryAttempts cfg \<longrightarrow> retryDelay cfg * 2 ^ i \<le> max_timer"
  shows
   "(int a < retryAttempts cfg \<and> net a = Responds l r \<and> garbled r \<and> clock v + int l < D \<longrightarrow>
       (\<exists>v2. executeWithRetry_from cfg D net a le v =
               executeWithRetry_from cfg D net (Suc a) (Some SyntaxError) v2 \<and>
             clock v2 = clock v + int l + int (retryDelay cfg * 2 ^ a) \<and>
             requestCount v2 = Suc (requestCount v) \<and>
             dispatches (trace v2) = Suc (dispatches (trace v)) \<and>
             backoffs (trace v2) = backoffs (trace v) @ [retryDelay cfg * 2 ^ a])) \<and>
    ((\<forall>i<k. \<exists>g. net i = Responds (lat i) g \<and> garbled g) \<and> int k \<le> retryAttempts cfg \<and>
     net k = Responds (lat k) r2 \<and> ok r2 \<and> body r2 = Some data \<and>
     time_through cfg lat 0 k < timeout cfg \<longrightarrow>
       fst (request cfg net w) = Inr data \<and>
       dispatches (trace (snd (request cfg net w))) = dispatches (trace w) + Suc k \<and>
       requestCount (snd (request cfg net w)) = requestCount w + Suc k \<and>
       backoffs (trace (snd (request cfg net w))) =
         backoffs (trace w) @ map (\<lambda>i. retryDelay cfg * 2 ^ i) [0..<k] \<and>
       (\<exists>ds ss.
          dispatch_times (trace (snd (request cfg net w))) = dispatch_times (trace w) @ ds \<and>
          settle_times (trace (snd (request cfg net w))) = settle_times (trace w) @ ss \<and>
          length ds = Suc k \<and> length ss = Suc k \<and>
          hd ds = clock (handleRateLimit w) \<and>
          gaps ds ss = map (\<lambda>i. int (retryDelay cfg * 2 ^ i)) [0..<k] \<and>
          clock (snd (request cfg net w)) = last ss)) \<and>
    ((\<forall>i. \<exists>g. net i = Responds (lat i) g \<and> garbled g) \<and>
     time_through cfg lat 0 (nat (retryAttempts cfg)) < timeout cfg \<longrightarrow>
       (\<exists>e. fst (request cfg net w) = Inl e \<and> e = SyntaxError \<and> \<not> is_api_error e) \<and>
       dispatches (trace (snd (request cfg net w))) =
         dispatches (trace w) + nat (1 + retryAttempts cfg) \<and>
       requestCount (snd (request cfg net w)) = requestCount w + nat (1 + retryAttempts cfg) \<and>
       timeline (trace (snd (request cfg net w))) =
         timeline (trace w) @
         concat (map (\<lambda>i. [Attempt, Wait (retryDelay cfg * 2 ^ i)]) [0..<nat (retryAttempts cfg)]) @
         [Attempt] \<and>
       (\<exists>ds ss.
          dispatch_times (trace (snd (request cfg net w))) = dispatch_times (trace w) @ ds \<and>
          settle_times (trace (snd (request cfg net w))) = settle_times (trace w) @ ss \<and>
          length ds = nat (1 + retryAttempts cfg) \<and> length ss = nat (1 + retryAttempts cfg) \<and>
          hd ds = clock (handleRateLimit w) \<and>
          gaps ds ss = map (\<lambda>i. int (retryDelay cfg * 2 ^ i)) [0..<nat (retryAttempts cfg)] \<and>
          clock (snd (request cfg net w)) = last ss))"
  (is "(?S1 \<longrightarrow> ?C1) \<and> (?S2 \<longrightarrow> ?C2) \<and> (?S3 \<longrightarrow> ?C3)")
proof -
  let ?w1 = "handleRateLimit w"
  let ?D = "clock ?w1 + int (timer_ms (timeout cfg))"
  let ?r = "executeWithRetry_from cfg ?D net 0 None ?w1"
  note B = assms(4)
  have D: "?D = clock ?w1 + int (timeout cfg)"
    using assms(3) by (simp add: timer_ms_in_range)
  from request_schedule[OF assms(1) B, of net w] obtain ds ss where
    S: "dispatch_times (trace (snd (request cfg net w))) = dispatch_times (trace w) @ ds"
       "settle_times (trace (snd (request cfg net w))) = settle_times (trace w) @ ss"
       "length ss = length ds"
       "dispatches (trace (snd (request cfg net w))) = dispatches (trace w) + length ds"
       "ds \<noteq> [] \<longrightarrow> hd ds = clock (handleRateLimit w) \<and> clock (snd (request cfg net w)) = last ss"
       "gaps ds ss = map (\<lambda>i. int (retryDelay cfg * 2 ^ i)) [0..<length ds - 1]"
       "backoffs (trace (snd (request cfg net w))) =
          backoffs (trace w) @ map (\<lambda>i. retryDelay cfg * 2 ^ i) [0..<length ds - 1]"
    by blast
  have 1: "?C1" if h: "?S1"
  proof -
    from h B have "retryDelay cfg * 2 ^ a \<le> max_timer" by blast
    with h decode_failure_step[of a cfg net l r v D le] show ?thesis by blast
  qed
  have 2: "?C2" if h: "?S2"
  proof -
    from h have G: "\<exists>g. net i = Responds (lat i) g \<and> garbled g" if "i < k" for i
      using that by blast
    from h have K: "net k = Responds (lat k) r2" "ok r2" "body r2 = Some data"
      and kn: "int k \<le> retryAttempts cfg" by blast+
    from h have "clock ?w1 + int (time_through cfg lat 0 k) < ?D" unfolding D by linarith
    with loop_decode_recover[of k net lat r2 data cfg 0 ?w1 ?D None, OF G K kn B]
    have f: "fst ?r = Inr data"
      and q: "requestCount (snd ?r) = requestCount ?w1 + (Suc k - 0)"
      and d: "dispatches (trace (snd ?r)) = dispatches (trace ?w1) + (Suc k - 0)" by simp_all
    have f': "fst (request cfg net w) = Inr data"
      and q': "requestCount (snd (request cfg net w)) = requestCount w + Suc k"
      and d': "dispatches (trace (snd (request cfg net w))) = dispatches (trace w) + Suc k"
      unfolding request_valid[OF assms(1)] using f q d by simp_all
    from S(4) d' have len: "length ds = Suc k" by simp
    then have ne: "ds \<noteq> []" by auto
    from len have m: "length ds - 1 = k" by simp
    show ?thesis using f' q' d' S len ne m by auto
  qed
  have 3: "?C3" if h: "?S3"
  proof -
    from h have N: "\<exists>g. net i = Responds (lat i) g \<and> garbled g" for i by blast
    have R: "\<exists>e w1. try_attempt cfg ?D (net i) u = (Inl e, w1) \<and> \<not> is_client_error e" for i u
    proof -
      from N[of i] obtain g where "net i = Responds (lat i) g" "ok g" "body g = None"
        by (auto simp: garbled_def)
      with try_attempt_decode_retryable[of g cfg ?D "lat i" u] show ?thesis by simp
    qed
    have bd: "backoff_delay cfg = (\<lambda>i. retryDelay cfg * 2 ^ i)"
      by (rule ext) (simp add: backoff_delay_def)
    from h have "clock ?w1 + int (time_through cfg lat 0 (nat (retryAttempts cfg))) < ?D"
      unfolding D by linarith
    with loop_decode_failures[of net lat cfg ?w1 0 ?D None, OF N B] assms(2)
    have f: "fst ?r = Inl SyntaxError"
      and q: "requestCount (snd ?r) = requestCount ?w1 + nat (retryAttempts cfg + 1 - int 0)"
      by auto
    have d: "dispatches (trace (snd ?r)) = dispatches (trace ?w1) + nat (retryAttempts cfg + 1 - int 0)"
      using loop_all_retried[of cfg ?D net 0 None ?w1, OF R] by blast
    have t: "timeline (trace (snd ?r)) = timeline (trace ?w1) @
        concat (map (\<lambda>i. [Attempt, Wait (backoff_delay cfg i)]) [0..<nat (retryAttempts cfg)]) @ [Attempt]"
      using loop_timeline[of cfg ?D net 0 None ?w1, OF R] assms(2) by simp
    have f': "\<exists>e. fst (request cfg net w) = Inl e \<and> e = SyntaxError \<and> \<not> is_api_error e"
      unfolding request_valid[OF assms(1)] using f by simp
    have q': "requestCount (snd (request cfg net w)) = requestCount w + nat (1 + retryAttempts cfg)"
      unfolding request_valid[OF assms(1)] using q by (simp add: add.commute)
    have d': "dispatches (trace (snd (request cfg net w))) =
         dispatches (trace w) + nat (1 + retryAttempts cfg)"
      unfolding request_valid[OF assms(1)] using d by (simp add: add.commute)
    have t': "timeline (trace (snd (request cfg net w))) =
         timeline (trace w) @
         concat (map (\<lambda>i. [Attempt, Wait (retryDelay cfg * 2 ^ i)]) [0..<nat (retryAttempts cfg)]) @
         [Attempt]"
      unfolding request_valid[OF assms(1)] using t unfolding bd by simp
    from S(4) d' have len: "length ds = nat (1 + retryAttempts cfg)" by simp
    with assms(2) have ne: "ds \<noteq> []" by auto
    from len assms(2) have m: "length ds - 1 = nat (retryAttempts cfg)" by simp
    have sch: "\<exists>ds ss.
          dispatch_times (trace (snd (request cfg net w))) = dispatch_times (trace w) @ ds \<and>
          settle_times (trace (snd (request cfg net w))) = settle_times (trace w) @ ss \<and>
          length ds = nat (1 + retryAttempts cfg) \<and> length ss = nat (1 + retryAttempts cfg) \<and>
          hd ds = clock (handleRateLimit w) \<and>
          gaps ds ss = map (\<lambda>i. int (retryDelay cfg * 2 ^ i)) [0..<nat (retryAttempts cfg)] \<and>
          clock (snd (request cfg net w)) = last ss"
      using S len ne m by auto
    show ?thesis using f' q' d' t' sch by blast
  qed
  from 1 2 3 show ?thesis by blast
qed

text \<open>
  With one retry and a base delay of 500 ms: a garbled answer at 1040 is followed by the
  next attempt at 1540; a server that garbles its first answer only gives its data on the
  second attempt; one that garbles every answer ends the call with the decode error. In
  both calls the attempts are at 1100 and 1610, the second 500 ms after the first ended.
\<close>

theorem decode_failure_is_retried_witness:
  "baseUrlValid example_config \<and> 0 \<le> retryAttempts example_config \<and>
   timeout example_config \<le> max_timer \<and>
   retryDelay example_config * 2 ^ 0 \<le> max_timer \<and>
   garbled garbled_ok \<and> ok ok_response \<and>
   clock warm_client + int 10 < 5000 \<and>
   executeWithRetry_from example_config 5000 garbled_once 0 None warm_client =
     executeWithRetry_from example_config 5000 garbled_once 1 (Some SyntaxError)
       \<lparr>clock = 1540, lastRequestTime = 1000, requestCount = 8,
        trace = [Dispatch 1030, Resolved 1040 200, Caught SyntaxError,
                 ConsoleWarn 1 2 500, BackoffWait 500]\<rparr> \<and>
   time_through example_config (\<lambda>i. 10) 0 1 < timeout example_config \<and>
   fst (request example_config garbled_once warm_client) = Inr (JObj [(''data'', JArr [])]) \<and>
   requestCount (snd (request example_config garbled_once warm_client)) = 9 \<and>
   dispatch_times (trace (snd (request example_config garbled_once warm_client))) = [1100, 1610] \<and>
   settle_times (trace (snd (request example_config garbled_once warm_client))) = [1110, 1620] \<and>
   fst (request example_config (\<lambda>i. Responds 10 garbled_ok) warm_client) = Inl SyntaxError \<and>
   dispatches (trace (snd (request example_config (\<lambda>i. Responds 10 garbled_ok) warm_client))) = 2 \<and>
   requestCount (snd (request example_config (\<lambda>i. Responds 10 garbled_ok) warm_client)) = 9 \<and>
   timeline (trace (snd (request example_config (\<lambda>i. Responds 10 garbled_ok) warm_client))) =
     [Attempt, Wait 500, Attempt] \<and>
   dispatch_times (trace (snd (request example_config (\<lambda>i. Responds 10 garbled_ok) warm_client))) =
     [1100, 1610] \<and>
   settle_times (trace (snd (request example_config (\<lambda>i. Responds 10 garbled_ok) warm_client))) =
     [1110, 1620] \<and>
   gaps [1100, 1610] [1110, 1620] = [500]"
  (is "?W")
proof -
  have a1: "baseUrlValid example_config" and a2: "0 \<le> retryAttempts example_config"
    and a3: "timeout example_config \<le> max_timer"
    by (simp_all add: example_config_def max_timer_def)
  have a4: "\<forall>i. int i < retryAttempts example_config \<longrightarrow>
                retryDelay example_config * 2 ^ i \<le> max_timer"
    by (auto simp: example_config_def max_timer_def)
  note recovered = decode_failure_is_retried[of example_config 0 garbled_once 10 garbled_ok
      warm_client 5000 None 1 "\<lambda>i. 10" ok_response "JObj [(''data'', JArr [])]" warm_client,
      OF a1 a2 a3 a4, THEN conjunct2, THEN conjunct1]
  note persisted = decode_failure_is_retried[of example_config 0 "\<lambda>i. Responds 10 garbled_ok"
      10 garbled_ok warm_client 5000 None 1 "\<lambda>i. 10" ok_response "JObj [(''data'', JArr [])]"
      warm_client, OF a1 a2 a3 a4, THEN conjunct2, THEN conjunct2]
  have h2: "(\<forall>i<1. \<exists>g. garbled_once i = Responds 10 g \<and> garbled g) \<and>
      int 1 \<le> retryAttempts example_config \<and>
      garbled_once 1 = Responds 10 ok_response \<and> ok ok_response \<and>
      body ok_response = Some (JObj [(''data'', JArr [])]) \<and>
      time_through example_config (\<lambda>i. 10) 0 1 < timeout example_config"
    by (simp add: example_defs garbled_def ok_def time_through_def backoff_delay_def)
  have h3: "(\<forall>i. \<exists>g. Responds 10 garbled_ok = Responds 10 g \<and> garbled g) \<and>
      time_through example_config (\<lambda>i. 10) 0 (nat (retryAttempts example_config))
        < timeout example_config"
    by (simp add: example_defs garbled_def ok_def time_through_def backoff_delay_def)
  from recovered h2 have r: "fst (request example_config garbled_once warm_client) =
      Inr (JObj [(''data'', JArr [])])" by simp
  from persisted h3 have p: "fst (request example_config (\<lambda>i. Responds 10 garbled_ok) warm_client) =
      Inl SyntaxError" by simp
  have rest: ?W
    by (simp add: example_defs run_defs time_through_def backoff_delay_def garbled_def
        numeral_2_eq_2)
  from r p rest show ?thesis by simp
qed

end
